theory Spec2Isabelle
  imports Main "HOL-Library.AList"
begin

section \<open>The WebSocket hub of the chat backend\<close>

text \<open>
  A shallow embedding of \<^verbatim>\<open>backend/src/websocket/websocket.ts\<close> (class
  \<^verbatim>\<open>WebSocketManager\<close>) together with the parts of the Mongoose models
  (\<^verbatim>\<open>models/Chat.ts\<close>, \<^verbatim>\<open>models/Message.ts\<close>, \<^verbatim>\<open>models/User.ts\<close>) its handlers call.

  Conventions of the embedding.
  \<^item> The manager's fields and the database are one explicit state, the record \<open>hub\<close>;
    every handler takes the state and returns the new one.
  \<^item> A connection object is a cell of the store \<open>sockets\<close>, addressed by a natural
    number; the registry \<open>connectedUsers\<close> holds such addresses, so two connections of
    one user are two different addresses.
  \<^item> Every frame written by \<^verbatim>\<open>ws.send\<close> is appended to the log \<open>sent\<close> as a pair
    (connection, event); what a handler emits is the suffix it adds to that log.
  \<^item> \<^verbatim>\<open>new Date()\<close> and \<^verbatim>\<open>Date.now()\<close> are the argument \<open>now\<close> (milliseconds), the id
    of a freshly constructed document is the argument \<open>mid\<close>.
  \<^item> A JavaScript \<^verbatim>\<open>Map\<close> is an association list in insertion order
    (\<open>AList.update\<close> keeps the position of an existing key, as \<^verbatim>\<open>Map.set\<close> does).
  \<^item> Every handler runs to completion before the next event: an \<^verbatim>\<open>await\<close> is modelled
    as returning at once, and a call that the source does not await
    (\<^verbatim>\<open>broadcastToChat\<close>, \<^verbatim>\<open>broadcastToUserChats\<close>) as completing in call order.
  \<^item> A store call throws where the source's \<^verbatim>\<open>catch\<close> blocks can observe it from the
    data alone: an id that does not cast to an ObjectId, a schema validator, the
    \<^verbatim>\<open>pre('save')\<close> hook of a chat, an insert under an existing id. Loss of the
    database connection is outside the model.
\<close>

subsection \<open>Data model\<close>

type_synonym oid = string

datatype ready_state = CONNECTING | OPEN | CLOSING | CLOSED

text \<open>\<^verbatim>\<open>interface ExtendedWebSocket\<close>: the three optional fields of the source, the
  transport's \<^verbatim>\<open>readyState\<close>, whether the listeners of lines 77-94 are attached, and the
  arguments of \<^verbatim>\<open>ws.close(code, reason)\<close> if it was called.\<close>

record ExtendedWebSocket =
  userId :: "string option"
  username :: "string option"
  isAlive :: "bool option"
  readyState :: ready_state
  listeners :: bool
  closeCode :: "(nat \<times> string) option"

text \<open>\<^verbatim>\<open>interface TypingUser\<close> (types/index.ts); the first two fields are written from
  \<^verbatim>\<open>ws.userId!\<close> and \<^verbatim>\<open>ws.username!\<close>, which are optional on the socket.\<close>

record TypingUser =
  tu_userId :: "string option"
  tu_username :: "string option"
  tu_chatId :: string
  tu_timestamp :: nat

record IUser =
  u_username :: string
  isOnline :: bool
  lastSeen :: nat

record IReadReceipt =
  rr_user :: oid
  readAt :: nat

record IMessage =
  sender :: oid
  chat :: oid
  content :: string
  messageType :: string
  fileUrl :: "string option"
  fileName :: "string option"
  fileSize :: "nat option"
  isEdited :: bool
  readBy :: "IReadReceipt list"
  createdAt :: nat

datatype chat_type = Private | Group

record IChat =
  c_type :: chat_type
  participants :: "oid list"
  admin :: "oid option"
  lastMessage :: "oid option"
  updatedAt :: nat

text \<open>The payload of \<^verbatim>\<open>send_message\<close>, as destructured at line 194.\<close>

record send_payload =
  p_chatId :: string
  p_content :: string
  p_messageType :: "string option"
  p_fileUrl :: "string option"
  p_fileName :: "string option"
  p_fileSize :: "nat option"

text \<open>Outbound events \<^verbatim>\<open>{type, payload}\<close>, one constructor per \<^verbatim>\<open>type\<close> string the hub
  sends; the arguments are the payload fields in the order the source writes them.
  \<open>New_message\<close> carries the re-fetched message (its id, the document, the populated
  sender's username when that user exists).\<close>

datatype ws_event =
    Connection_ev string oid nat
  | Error_ev string "nat option"
  | Room_joined string nat
  | Room_left string nat
  | New_message "(oid \<times> IMessage \<times> string option) option" string nat
  | Typing_start "string option" "string option" string nat
  | Typing_stop "string option" "string option" string nat
  | Message_read string string "string option" "string option" nat
  | User_online oid string nat
  | User_offline "string option" "string option" nat

fun ev_type :: "ws_event \<Rightarrow> string" where
  "ev_type (Connection_ev _ _ _) = ''connection''"
| "ev_type (Error_ev _ _) = ''error''"
| "ev_type (Room_joined _ _) = ''room_joined''"
| "ev_type (Room_left _ _) = ''room_left''"
| "ev_type (New_message _ _ _) = ''new_message''"
| "ev_type (Typing_start _ _ _ _) = ''typing_start''"
| "ev_type (Typing_stop _ _ _ _) = ''typing_stop''"
| "ev_type (Message_read _ _ _ _ _) = ''message_read''"
| "ev_type (User_online _ _ _) = ''user_online''"
| "ev_type (User_offline _ _ _) = ''user_offline''"

text \<open>A pending \<^verbatim>\<open>setTimeout\<close> callback of \<^verbatim>\<open>handleTypingStart\<close>: when it is due and the
  variables its closure captured (\<^verbatim>\<open>ws\<close>, \<^verbatim>\<open>chatId\<close>, \<^verbatim>\<open>typingKey\<close>).\<close>

record timer =
  due :: nat
  tm_ws :: nat
  tm_chatId :: string
  tm_key :: string

text \<open>The database as the hub sees it. \<open>castObjectId\<close> is the ODM's cast of a string
  from a payload to an ObjectId, given as the id's canonical string (\<open>None\<close>: the query
  throws a cast error); which strings it accepts depends on the library version, so it is
  left a parameter.\<close>

record store =
  users :: "oid \<rightharpoonup> IUser"
  chats :: "(oid \<times> IChat) list"
  messages :: "oid \<rightharpoonup> IMessage"
  castObjectId :: "string \<Rightarrow> oid option"

record hub =
  sockets :: "nat \<Rightarrow> ExtendedWebSocket"
  clients :: "nat list"
  connectedUsers :: "(string \<times> nat) list"
  typingUsers :: "(string \<times> TypingUser) list"
  timers :: "timer list"
  db :: store
  sent :: "(nat \<times> ws_event) list"
  pinged :: "nat list"

datatype store_error = CastError | ValidationError | HookError | DuplicateKey

subsection \<open>JavaScript values\<close>

text \<open>Truthiness of a \<^verbatim>\<open>string | undefined\<close>: \<^verbatim>\<open>undefined\<close> and the empty string are falsy.\<close>

definition truthy :: "string option \<Rightarrow> bool" where
  "truthy s = (case s of None \<Rightarrow> False | Some x \<Rightarrow> x \<noteq> [])"

text \<open>A \<^verbatim>\<open>string | undefined\<close> inside a template literal.\<close>

definition js_str :: "string option \<Rightarrow> string" where
  "js_str s = (case s of None \<Rightarrow> ''undefined'' | Some x \<Rightarrow> x)"

text \<open>\<^verbatim>\<open>...(x && { x })\<close>: the field is set only when the value is truthy.\<close>

definition keep_truthy :: "string option \<Rightarrow> string option" where
  "keep_truthy s = (if truthy s then s else None)"

definition keep_nonzero :: "nat option \<Rightarrow> nat option" where
  "keep_nonzero n = (case n of None \<Rightarrow> None | Some k \<Rightarrow> if k = 0 then None else Some k)"

text \<open>\<^verbatim>\<open>String.prototype.trim\<close> on the ASCII white space characters (the schema option
  \<^verbatim>\<open>trim: true\<close>).\<close>

definition is_ws :: "char \<Rightarrow> bool" where
  "is_ws c = (c = CHR '' '' \<or> of_char c \<in> {9::nat, 10, 11, 12, 13})"

definition trim :: "string \<Rightarrow> string" where
  "trim s = rev (dropWhile is_ws (rev (dropWhile is_ws s)))"

subsection \<open>Store queries\<close>

definition Chat_findById :: "hub \<Rightarrow> string \<Rightarrow> store_error + IChat option" where
  "Chat_findById st cid =
     (case castObjectId (db st) cid of
        None \<Rightarrow> Inl CastError
      | Some k \<Rightarrow> Inr (map_of (chats (db st)) k))"

text \<open>\<^verbatim>\<open>Chat.findOne({ _id: chatId, participants: ws.userId })\<close>: the chat with that id
  (returned with its \<^verbatim>\<open>_id\<close>), if the user is among its participants.\<close>

definition Chat_findOne ::
  "hub \<Rightarrow> string \<Rightarrow> string option \<Rightarrow> store_error + (oid \<times> IChat) option" where
  "Chat_findOne st cid uo =
     (case castObjectId (db st) cid of
        None \<Rightarrow> Inl CastError
      | Some k \<Rightarrow>
          Inr (case map_of (chats (db st)) k of
                 None \<Rightarrow> None
               | Some ch \<Rightarrow>
                   if list_ex (\<lambda>p. Some p = uo) (participants ch) then Some (k, ch) else None))"

definition Message_findById ::
  "hub \<Rightarrow> string \<Rightarrow> store_error + (oid \<times> IMessage) option" where
  "Message_findById st m =
     (case castObjectId (db st) m of
        None \<Rightarrow> Inl CastError
      | Some k \<Rightarrow> Inr (map_option (Pair k) (messages (db st) k)))"

text \<open>\<^verbatim>\<open>.populate('participants', '_id')\<close>: each participant id is replaced by the user
  document it refers to; ids that refer to no user are dropped from the array.\<close>

definition populate :: "hub \<Rightarrow> oid list \<Rightarrow> oid list" where
  "populate st ps = filter (\<lambda>p. users (db st) p \<noteq> None) ps"

subsection \<open>Fanout\<close>

definition sendToClient :: "hub \<Rightarrow> nat \<Rightarrow> ws_event \<Rightarrow> hub" where
  "sendToClient st c ev =
     (if readyState (sockets st c) = OPEN then st\<lparr>sent := sent st @ [(c, ev)]\<rparr> else st)"

definition send_to_user :: "ws_event \<Rightarrow> oid \<Rightarrow> hub \<Rightarrow> hub" where
  "send_to_user ev p s =
     (case map_of (connectedUsers s) p of None \<Rightarrow> s | Some d \<Rightarrow> sendToClient s d ev)"

definition broadcastToChat :: "hub \<Rightarrow> string \<Rightarrow> ws_event \<Rightarrow> string option \<Rightarrow> hub" where
  "broadcastToChat st chatId ev excludeUserId =
     (case Chat_findById st chatId of
        Inl e \<Rightarrow> st
      | Inr None \<Rightarrow> st
      | Inr (Some ch) \<Rightarrow>
          fold (\<lambda>p s. if Some p = excludeUserId then s else send_to_user ev p s)
               (populate st (participants ch)) st)"

text \<open>The inner callback of \<^verbatim>\<open>broadcastToUserChats\<close>; the second component is the set
  \<^verbatim>\<open>notifiedUsers\<close>, in insertion order.\<close>

definition notify :: "oid \<Rightarrow> ws_event \<Rightarrow> oid \<Rightarrow> hub \<times> oid list \<Rightarrow> hub \<times> oid list" where
  "notify uid ev p acc =
     (case acc of (s, notifiedUsers) \<Rightarrow>
        if p = uid \<or> p \<in> set notifiedUsers then (s, notifiedUsers)
        else (send_to_user ev p s, notifiedUsers @ [p]))"

definition Chat_find :: "hub \<Rightarrow> oid \<Rightarrow> IChat list" where
  "Chat_find st uid = map snd (filter (\<lambda>kc. uid \<in> set (participants (snd kc))) (chats (db st)))"

definition broadcastToUserChats :: "hub \<Rightarrow> oid \<Rightarrow> ws_event \<Rightarrow> hub" where
  "broadcastToUserChats st uid ev =
     fst (fold (\<lambda>ch acc. fold (notify uid ev) (populate st (participants ch)) acc)
               (Chat_find st uid) (st, []))"

subsection \<open>Connection and disconnection\<close>

text \<open>\<^verbatim>\<open>ws.close(code, reason)\<close> starts the closing handshake.\<close>

definition ws_close :: "hub \<Rightarrow> nat \<Rightarrow> nat \<Rightarrow> string \<Rightarrow> hub" where
  "ws_close st c code reason =
     st\<lparr>sockets := (sockets st)(c := (sockets st c)\<lparr>readyState := CLOSING,
                                                     closeCode := Some (code, reason)\<rparr>)\<rparr>"

text \<open>A socket as the server hands it to the \<^verbatim>\<open>'connection'\<close> listener.\<close>

definition new_socket :: ExtendedWebSocket where
  "new_socket = \<lparr>userId = None, username = None, isAlive = None, readyState = OPEN,
                 listeners = False, closeCode = None\<rparr>"

definition set_add :: "'a \<Rightarrow> 'a list \<Rightarrow> 'a list" where
  "set_add x xs = (if x \<in> set xs then xs else xs @ [x])"

text \<open>The \<^verbatim>\<open>'connection'\<close> listener (lines 31-110). \<open>qtoken\<close> is
  \<^verbatim>\<open>url.searchParams.get('token')\<close>, \<open>htoken\<close> is
  \<^verbatim>\<open>req.headers.authorization?.split(' ')[1]\<close>, \<open>verify\<close> is \<^verbatim>\<open>jwt.verify\<close> with the
  server's secret (\<open>None\<close> when it throws).\<close>

definition on_connection ::
  "hub \<Rightarrow> nat \<Rightarrow> string option \<Rightarrow> string option \<Rightarrow> (string \<Rightarrow> string option) \<Rightarrow> nat \<Rightarrow> hub" where
  "on_connection st0 c qtoken htoken verify now =
     (let st = st0\<lparr>sockets := (sockets st0)(c := new_socket), clients := set_add c (clients st0)\<rparr>;
          token = (if truthy qtoken then qtoken else htoken)
      in if \<not> truthy token then ws_close st c 4001 ''Unauthorized: No token provided''
         else case verify (js_str token) of
           None \<Rightarrow> ws_close st c 4003 ''Internal server error''
         | Some decoded \<Rightarrow>
           case castObjectId (db st) decoded of
             None \<Rightarrow> ws_close st c 4003 ''Internal server error''
           | Some uid \<Rightarrow>
             case users (db st) uid of
               None \<Rightarrow> ws_close st c 4002 ''Unauthorized: Invalid token''
             | Some user \<Rightarrow>
                 let st1 = st\<lparr>sockets := (sockets st)(c := (sockets st c)
                                 \<lparr>userId := Some uid, username := Some (u_username user),
                                  isAlive := Some True\<rparr>)\<rparr>;
                     st2 = st1\<lparr>connectedUsers := AList.update uid c (connectedUsers st1)\<rparr>;
                     st3 = st2\<lparr>db := (db st2)\<lparr>users := (users (db st2))
                                 (uid := Some (user\<lparr>isOnline := True, lastSeen := now\<rparr>))\<rparr>\<rparr>;
                     st4 = broadcastToUserChats st3 uid (User_online uid (u_username user) now);
                     st5 = st4\<lparr>sockets := (sockets st4)(c := (sockets st4 c)\<lparr>listeners := True\<rparr>)\<rparr>
                 in sendToClient st5 c (Connection_ev ''Connected successfully'' uid now))"

text \<open>\<^verbatim>\<open>User.findByIdAndUpdate(id, { isOnline: false, lastSeen: new Date() })\<close>.\<close>

definition User_setOffline :: "hub \<Rightarrow> oid \<Rightarrow> nat \<Rightarrow> hub" where
  "User_setOffline st uid now =
     (case users (db st) uid of
        None \<Rightarrow> st
      | Some user \<Rightarrow> st\<lparr>db := (db st)\<lparr>users := (users (db st))
                          (uid := Some (user\<lparr>isOnline := False, lastSeen := now\<rparr>))\<rparr>\<rparr>)"

definition handleDisconnection :: "hub \<Rightarrow> nat \<Rightarrow> nat \<Rightarrow> hub" where
  "handleDisconnection st c now =
     (let ws = sockets st c in
      if truthy (userId ws) then
        let uid = js_str (userId ws);
            st1 = st\<lparr>connectedUsers := AList.delete uid (connectedUsers st)\<rparr>;
            st2 = st1\<lparr>typingUsers :=
                        filter (\<lambda>kt. tu_userId (snd kt) \<noteq> userId ws) (typingUsers st1)\<rparr>;
            st3 = User_setOffline st2 uid now
        in broadcastToUserChats st3 uid (User_offline (userId ws) (username ws) now)
      else st)"

text \<open>The transport's \<^verbatim>\<open>'close'\<close> event: the socket is closed and leaves
  \<^verbatim>\<open>wss.clients\<close>, then the listener of lines 82-84 runs if it was attached.\<close>

definition emitClose :: "hub \<Rightarrow> nat \<Rightarrow> nat \<Rightarrow> hub" where
  "emitClose st c now =
     (let st1 = st\<lparr>sockets := (sockets st)(c := (sockets st c)\<lparr>readyState := CLOSED\<rparr>),
                   clients := removeAll c (clients st)\<rparr>
      in if listeners (sockets st c) then handleDisconnection st1 c now else st1)"

subsection \<open>Saving documents\<close>

text \<open>\<^verbatim>\<open>new Message({...})\<close> of lines 212-220 followed by the schema's setters and
  validators (models/Message.ts): \<^verbatim>\<open>sender\<close> is required, \<^verbatim>\<open>content\<close> is trimmed, required
  and at most 2000 characters long, \<^verbatim>\<open>messageType\<close> is one of the enum's strings.\<close>

definition new_Message :: "string option \<Rightarrow> oid \<Rightarrow> send_payload \<Rightarrow> nat \<Rightarrow> store_error + IMessage" where
  "new_Message uo k p now =
     (let messageType = (case p_messageType p of None \<Rightarrow> ''text'' | Some t \<Rightarrow> t);
          content = trim (p_content p)
      in case uo of
           None \<Rightarrow> Inl ValidationError
         | Some u \<Rightarrow>
             if content = [] \<or> 2000 < length content then Inl ValidationError
             else if messageType \<notin> set [''text'', ''image'', ''file''] then Inl ValidationError
             else Inr \<lparr>sender = u, chat = k, content = content, messageType = messageType,
                       fileUrl = keep_truthy (p_fileUrl p), fileName = keep_truthy (p_fileName p),
                       fileSize = keep_nonzero (p_fileSize p), isEdited = False, readBy = [],
                       createdAt = now\<rparr>)"

text \<open>\<^verbatim>\<open>newMessage.save()\<close>: an insert under the document's fresh \<^verbatim>\<open>_id\<close>.\<close>

definition Message_insert :: "hub \<Rightarrow> oid \<Rightarrow> IMessage \<Rightarrow> store_error + hub" where
  "Message_insert st mid m =
     (if messages (db st) mid \<noteq> None then Inl DuplicateKey
      else Inr (st\<lparr>db := (db st)\<lparr>messages := (messages (db st))(mid := Some m)\<rparr>\<rparr>))"

text \<open>\<^verbatim>\<open>chat.save()\<close> with the \<^verbatim>\<open>pre('save')\<close> hook of models/Chat.ts.\<close>

definition Chat_save :: "hub \<Rightarrow> oid \<Rightarrow> IChat \<Rightarrow> nat \<Rightarrow> store_error + hub" where
  "Chat_save st k ch now =
     (if c_type ch = Private \<and> length (participants ch) \<noteq> 2 then Inl HookError
      else if c_type ch = Group \<and> length (participants ch) < 2 then Inl HookError
      else
        let ch1 = (if c_type ch = Group \<and> admin ch = None
                   then ch\<lparr>admin := (case participants ch of [] \<Rightarrow> None | p # _ \<Rightarrow> Some p)\<rparr>
                   else ch)
        in Inr (st\<lparr>db := (db st)\<lparr>chats := AList.update k (ch1\<lparr>updatedAt := now\<rparr>)
                                                       (chats (db st))\<rparr>\<rparr>))"

text \<open>\<^verbatim>\<open>Message.findById(newMessage._id).populate('sender', 'username avatar')\<close>.\<close>

definition Message_populated :: "hub \<Rightarrow> oid \<Rightarrow> (oid \<times> IMessage \<times> string option) option" where
  "Message_populated st mid =
     (case messages (db st) mid of
        None \<Rightarrow> None
      | Some m \<Rightarrow> Some (mid, m, map_option u_username (users (db st) (sender m))))"

subsection \<open>Event handlers\<close>

definition typingKey :: "hub \<Rightarrow> nat \<Rightarrow> string \<Rightarrow> string" where
  "typingKey st c chatId = js_str (userId (sockets st c)) @ ''-'' @ chatId"

text \<open>\<^verbatim>\<open>handleJoinRoom\<close> has no \<^verbatim>\<open>try\<close> of its own: a query that throws is caught in
  \<^verbatim>\<open>handleMessage\<close>.\<close>

definition handleJoinRoom :: "hub \<Rightarrow> nat \<Rightarrow> string \<Rightarrow> nat \<Rightarrow> store_error + hub" where
  "handleJoinRoom st c chatId now =
     (case Chat_findOne st chatId (userId (sockets st c)) of
        Inl e \<Rightarrow> Inl e
      | Inr None \<Rightarrow> Inr (sendToClient st c (Error_ev ''Chat not found or access denied'' None))
      | Inr (Some kc) \<Rightarrow> Inr (sendToClient st c (Room_joined chatId now)))"

definition handleLeaveRoom :: "hub \<Rightarrow> nat \<Rightarrow> string \<Rightarrow> nat \<Rightarrow> hub" where
  "handleLeaveRoom st c chatId now =
     sendToClient (st\<lparr>typingUsers := AList.delete (typingKey st c chatId) (typingUsers st)\<rparr>)
                  c (Room_left chatId now)"

definition handleSendMessage :: "hub \<Rightarrow> nat \<Rightarrow> send_payload \<Rightarrow> oid \<Rightarrow> nat \<Rightarrow> hub" where
  "handleSendMessage st c p mid now =
     (let ws = sockets st c; chatId = p_chatId p;
          failed = (\<lambda>s. sendToClient s c (Error_ev ''Failed to send message'' None))
      in case Chat_findOne st chatId (userId ws) of
           Inl e \<Rightarrow> failed st
         | Inr None \<Rightarrow> sendToClient st c (Error_ev ''Chat not found or access denied'' None)
         | Inr (Some (k, ch)) \<Rightarrow>
             (case new_Message (userId ws) k p now of
                Inl e \<Rightarrow> failed st
              | Inr newMessage \<Rightarrow>
                  (case Message_insert st mid newMessage of
                     Inl e \<Rightarrow> failed st
                   | Inr st1 \<Rightarrow>
                       (case Chat_save st1 k (ch\<lparr>lastMessage := Some mid\<rparr>) now of
                          Inl e \<Rightarrow> failed st1
                        | Inr st2 \<Rightarrow>
                            let populatedMessage = Message_populated st2 mid;
                                st3 = broadcastToChat st2 chatId
                                        (New_message populatedMessage chatId now) None;
                                st4 = st3\<lparr>typingUsers :=
                                            AList.delete (typingKey st c chatId) (typingUsers st3)\<rparr>
                            in broadcastToChat st4 chatId
                                 (Typing_stop (userId ws) (username ws) chatId now) (userId ws)))))"

definition handleTypingStart :: "hub \<Rightarrow> nat \<Rightarrow> string \<Rightarrow> nat \<Rightarrow> hub" where
  "handleTypingStart st c chatId now =
     (let ws = sockets st c; key = typingKey st c chatId;
          st1 = st\<lparr>typingUsers := AList.update key
                      \<lparr>tu_userId = userId ws, tu_username = username ws, tu_chatId = chatId,
                       tu_timestamp = now\<rparr> (typingUsers st)\<rparr>;
          st2 = broadcastToChat st1 chatId
                  (Typing_start (userId ws) (username ws) chatId now) (userId ws)
      in st2\<lparr>timers := timers st2 @
                [\<lparr>due = now + 3000, tm_ws = c, tm_chatId = chatId, tm_key = key\<rparr>]\<rparr>)"


definition handleTypingStop :: "hub \<Rightarrow> nat \<Rightarrow> string \<Rightarrow> nat \<Rightarrow> hub" where
  "handleTypingStop st c chatId now =
     (let ws = sockets st c;
          st1 = st\<lparr>typingUsers := AList.delete (typingKey st c chatId) (typingUsers st)\<rparr>
      in broadcastToChat st1 chatId
           (Typing_stop (userId ws) (username ws) chatId now) (userId ws))"

text \<open>\<^verbatim>\<open>handleMessageRead\<close>. The receipt pushed at lines 333-336 takes its \<^verbatim>\<open>user\<close> from
  \<^verbatim>\<open>ws.userId\<close>; were that undefined, the required field would fail validation in
  \<^verbatim>\<open>save\<close>, and the \<^verbatim>\<open>catch\<close> of line 352 only logs.\<close>

definition handleMessageRead :: "hub \<Rightarrow> nat \<Rightarrow> string \<Rightarrow> string \<Rightarrow> nat \<Rightarrow> hub" where
  "handleMessageRead st c messageId chatId now =
     (let ws = sockets st c;
          read = Message_read messageId chatId (userId ws) (username ws) now
      in case Message_findById st messageId of
           Inl e \<Rightarrow> st
         | Inr None \<Rightarrow> st
         | Inr (Some (k, messageDoc)) \<Rightarrow>
             let alreadyRead = list_ex (\<lambda>receipt. Some (rr_user receipt) = userId ws)
                                       (readBy messageDoc)
             in if \<not> alreadyRead then
                  (case userId ws of
                     None \<Rightarrow> st
                   | Some u \<Rightarrow>
                       broadcastToChat
                         (st\<lparr>db := (db st)\<lparr>messages := (messages (db st))
                            (k := Some (messageDoc\<lparr>readBy := readBy messageDoc @
                                           [\<lparr>rr_user = u, readAt = now\<rparr>]\<rparr>))\<rparr>\<rparr>)
                         chatId read None)
                else broadcastToChat st chatId read None)"

text \<open>An inbound frame after \<^verbatim>\<open>JSON.parse\<close>: one constructor per case of the switch at
  line 117, \<open>Unknown\<close> for every other \<^verbatim>\<open>type\<close>, \<open>Malformed\<close> for a frame that does not
  parse or has no payload object.\<close>

datatype frame =
    Join_room string
  | Leave_room string
  | Send_message send_payload
  | Typing_start_frame string
  | Typing_stop_frame string
  | Message_read_frame string string
  | Unknown string
  | Malformed

definition handleMessage :: "hub \<Rightarrow> nat \<Rightarrow> frame \<Rightarrow> oid \<Rightarrow> nat \<Rightarrow> hub" where
  "handleMessage st c f mid now =
     (let caught = sendToClient st c (Error_ev ''Error processing message'' (Some now))
      in case f of
           Join_room chatId \<Rightarrow>
             (case handleJoinRoom st c chatId now of Inl e \<Rightarrow> caught | Inr s \<Rightarrow> s)
         | Leave_room chatId \<Rightarrow> handleLeaveRoom st c chatId now
         | Send_message p \<Rightarrow> handleSendMessage st c p mid now
         | Typing_start_frame chatId \<Rightarrow> handleTypingStart st c chatId now
         | Typing_stop_frame chatId \<Rightarrow> handleTypingStop st c chatId now
         | Message_read_frame messageId chatId \<Rightarrow> handleMessageRead st c messageId chatId now
         | Unknown t \<Rightarrow> st
         | Malformed \<Rightarrow> caught)"

text \<open>The transport's \<^verbatim>\<open>'message'\<close> and \<^verbatim>\<open>'pong'\<close> events reach the listeners of lines
  77-79 and 92-94 once these are attached.\<close>

definition emitMessage :: "hub \<Rightarrow> nat \<Rightarrow> frame \<Rightarrow> oid \<Rightarrow> nat \<Rightarrow> hub" where
  "emitMessage st c f mid now =
     (if listeners (sockets st c) then handleMessage st c f mid now else st)"

definition emitPong :: "hub \<Rightarrow> nat \<Rightarrow> hub" where
  "emitPong st c =
     (if listeners (sockets st c)
      then st\<lparr>sockets := (sockets st)(c := (sockets st c)\<lparr>isAlive := Some True\<rparr>)\<rparr>
      else st)"

subsection \<open>Timers\<close>


subsection \<open>Heartbeat\<close>

text \<open>The body of the \<^verbatim>\<open>forEach\<close> at lines 443-451; the second component collects the
  sockets terminated so far. \<^verbatim>\<open>ws.terminate()\<close> does nothing on a closed socket;
  otherwise the socket is destroyed, which the transport reports by a \<^verbatim>\<open>'close'\<close> event
  after the current callback. \<^verbatim>\<open>ws.ping()\<close> writes a ping frame on an open socket only;
  the log \<open>pinged\<close> records these frames.\<close>

definition heartbeat_client :: "nat \<Rightarrow> hub \<times> nat list \<Rightarrow> hub \<times> nat list" where
  "heartbeat_client c acc =
     (case acc of (st, closing) \<Rightarrow>
        let ws = sockets st c in
        if isAlive ws = Some False then
          (if readyState ws = CLOSED then (st, closing)
           else (st\<lparr>sockets := (sockets st)(c := ws\<lparr>readyState := CLOSING\<rparr>)\<rparr>, closing @ [c]))
        else
          (st\<lparr>sockets := (sockets st)(c := ws\<lparr>isAlive := Some False\<rparr>),
              pinged := (if readyState ws = OPEN then pinged st @ [c] else pinged st)\<rparr>,
           closing))"

text \<open>One run of the \<^verbatim>\<open>setInterval\<close> callback of \<^verbatim>\<open>setupHeartbeat\<close>, followed by the
  \<^verbatim>\<open>'close'\<close> events of the sockets it terminated.\<close>

definition heartbeat :: "hub \<Rightarrow> nat \<Rightarrow> hub" where
  "heartbeat st now =
     (case fold heartbeat_client (clients st) (st, []) of
        (st1, closing) \<Rightarrow> fold (\<lambda>c s. emitClose s c now) closing st1)"

section \<open>Notions used to state the properties\<close>

text \<open>Appending frames to the log of sent frames.\<close>

definition post :: "hub \<Rightarrow> (nat \<times> ws_event) list \<Rightarrow> hub" where
  "post st xs = st\<lparr>sent := sent st @ xs\<rparr>"

text \<open>The connection on which a user can be reached: the one registered under the
  identity, if it is open. The list has at most one element.\<close>

definition live :: "hub \<Rightarrow> oid \<Rightarrow> nat list" where
  "live st p =
     (case map_of (connectedUsers st) p of
        None \<Rightarrow> []
      | Some d \<Rightarrow> if readyState (sockets st d) = OPEN then [d] else [])"

definition room_targets :: "hub \<Rightarrow> oid list \<Rightarrow> string option \<Rightarrow> nat list" where
  "room_targets st ps excludeUserId =
     concat (map (live st) (filter (\<lambda>p. Some p \<noteq> excludeUserId) ps))"

text \<open>The connections a room fanout reaches: those of the room's participants that exist
  as users, are not the excluded identity and are reachable, in the room's order.\<close>

definition chat_recipients :: "hub \<Rightarrow> string \<Rightarrow> string option \<Rightarrow> nat list" where
  "chat_recipients st chatId excludeUserId =
     (case Chat_findById st chatId of
        Inr (Some ch) \<Rightarrow> room_targets st (populate st (participants ch)) excludeUserId
      | _ \<Rightarrow> [])"

text \<open>The identities of \<open>ps\<close> other than \<open>uid\<close> and those already \<open>seen\<close>, each once, in
  order of first occurrence.\<close>

fun unseen :: "oid \<Rightarrow> oid list \<Rightarrow> oid list \<Rightarrow> oid list" where
  "unseen uid seen [] = []"
| "unseen uid seen (p # ps) =
     (if p = uid \<or> p \<in> set seen then unseen uid seen ps else p # unseen uid (seen @ [p]) ps)"

text \<open>The identities that share a room with \<open>uid\<close>.\<close>

definition contacts :: "hub \<Rightarrow> oid \<Rightarrow> oid list" where
  "contacts st uid =
     unseen uid [] (concat (map (\<lambda>ch. populate st (participants ch)) (Chat_find st uid)))"

text \<open>The frames of a log that went to connection \<open>d\<close>.\<close>

definition frames_to :: "nat \<Rightarrow> (nat \<times> ws_event) list \<Rightarrow> ws_event list" where
  "frames_to d xs = map snd (filter (\<lambda>x. fst x = d) xs)"

text \<open>Every registry entry points to a connection bound to the entry's identity. Lines
  52-57 establish this for a new entry, and no handler writes \<^verbatim>\<open>ws.userId\<close> later.\<close>

definition registry_wf :: "hub \<Rightarrow> bool" where
  "registry_wf st =
     list_all (\<lambda>e. userId (sockets st (snd e)) = Some (fst e)) (connectedUsers st)"

text \<open>A heartbeat tick terminates the sockets whose liveness flag is still
  \<^verbatim>\<open>false\<close> and that are not closed already.\<close>

definition reaped :: "hub \<Rightarrow> nat \<Rightarrow> bool" where
  "reaped st e = (isAlive (sockets st e) = Some False \<and> readyState (sockets st e) \<noteq> CLOSED)"

text \<open>What the heartbeat loop does to one socket it visits.\<close>

definition hb_socket :: "ExtendedWebSocket \<Rightarrow> ExtendedWebSocket" where
  "hb_socket ws =
     (if isAlive ws = Some False
      then (if readyState ws = CLOSED then ws else ws\<lparr>readyState := CLOSING\<rparr>)
      else ws\<lparr>isAlive := Some False\<rparr>)"

text \<open>The \<^verbatim>\<open>'close'\<close> event of socket \<open>e\<close> runs the disconnect path for identity \<open>p\<close>.\<close>

definition closes :: "hub \<Rightarrow> nat \<Rightarrow> oid \<Rightarrow> bool" where
  "closes s e p = (listeners (sockets s e) \<and> userId (sockets s e) = Some p \<and> p \<noteq> [])"

text \<open>The state after that disconnect path, before its \<^verbatim>\<open>user_offline\<close> fanout.\<close>

definition disconnected :: "hub \<Rightarrow> nat \<Rightarrow> oid \<Rightarrow> nat \<Rightarrow> hub" where
  "disconnected s e u now =
     User_setOffline
       (s\<lparr>sockets := (sockets s)(e := (sockets s e)\<lparr>readyState := CLOSED\<rparr>),
          clients := removeAll e (clients s),
          connectedUsers := AList.delete u (connectedUsers s),
          typingUsers := filter (\<lambda>kt. tu_userId (snd kt) \<noteq> Some u) (typingUsers s)\<rparr>) u now"


subsection \<open>A small deployment\<close>

text \<open>Three users; a private room of \<open>a\<close> and \<open>b\<close> and a group of all three; tokens
  \<open>ta\<close>, \<open>tb\<close>, \<open>tc\<close>; every string casts to itself.\<close>

definition demo_verify :: "string \<Rightarrow> string option" where
  "demo_verify tok =
     (if tok = ''ta'' then Some ''a'' else if tok = ''tb'' then Some ''b''
      else if tok = ''tc'' then Some ''c'' else None)"

definition demo_db :: store where
  "demo_db =
     \<lparr>users = [''a'' \<mapsto> \<lparr>u_username = ''ann'', isOnline = False, lastSeen = 0\<rparr>,
               ''b'' \<mapsto> \<lparr>u_username = ''bob'', isOnline = False, lastSeen = 0\<rparr>,
               ''c'' \<mapsto> \<lparr>u_username = ''cy'', isOnline = False, lastSeen = 0\<rparr>],
      chats = [(''r'', \<lparr>c_type = Private, participants = [''a'', ''b''], admin = None,
                        lastMessage = None, updatedAt = 0\<rparr>),
               (''g'', \<lparr>c_type = Group, participants = [''a'', ''b'', ''c''],
                        admin = Some ''a'', lastMessage = None, updatedAt = 0\<rparr>)],
      messages = Map.empty, castObjectId = Some\<rparr>"

definition demo_hub :: hub where
  "demo_hub =
     \<lparr>sockets = (\<lambda>_. new_socket\<lparr>readyState := CLOSED\<rparr>), clients = [], connectedUsers = [],
      typingUsers = [], timers = [], db = demo_db, sent = [], pinged = []\<rparr>"

text \<open>\<open>a\<close> connects on connection 1, then \<open>b\<close> on connection 2.\<close>

definition demo_ab :: hub where
  "demo_ab =
     on_connection (on_connection demo_hub 1 (Some ''ta'') None demo_verify 10)
                   2 None (Some ''tb'') demo_verify 20"

text \<open>\<open>a\<close> connects again, on connection 3, while connection 1 has not been closed.\<close>

definition demo_reconnect :: hub where
  "demo_reconnect = on_connection demo_ab 3 (Some ''ta'') None demo_verify 30"

text \<open>\<open>b\<close> sends \<open>hi\<close> (padded with blanks) to the private room; the message gets the
  id \<open>m1\<close>. Then \<open>a\<close> marks it read.\<close>

definition demo_payload :: send_payload where
  "demo_payload = \<lparr>p_chatId = ''r'', p_content = '' hi '', p_messageType = None,
                    p_fileUrl = None, p_fileName = Some [], p_fileSize = Some 0\<rparr>"

definition demo_sent :: hub where
  "demo_sent = handleSendMessage demo_ab 2 demo_payload ''m1'' 40"

definition demo_read :: hub where
  "demo_read = handleMessageRead demo_sent 1 ''m1'' ''r'' 50"

text \<open>A heartbeat tick at time 30000 in \<open>demo_ab\<close>; then only \<open>b\<close> answers the ping.\<close>

definition demo_tick :: hub where
  "demo_tick = heartbeat demo_ab 30000"

definition demo_pong :: hub where
  "demo_pong = emitPong demo_tick 2"

section \<open>Properties\<close>

subsection \<open>What a fanout does to the state\<close>

lemmas conn_defs =
  on_connection_def ws_close_def new_socket_def set_add_def truthy_def js_str_def
  broadcastToUserChats_def Chat_find_def populate_def notify_def send_to_user_def
  sendToClient_def demo_verify_def demo_db_def demo_hub_def

lemma post_Nil [simp]: "post st [] = st"
  by (simp add: post_def)

lemma post_post [simp]: "post (post st xs) ys = post st (xs @ ys)"
  by (simp add: post_def)

lemma post_fields [simp]:
  "sockets (post st xs) = sockets st" "clients (post st xs) = clients st"
  "connectedUsers (post st xs) = connectedUsers st" "typingUsers (post st xs) = typingUsers st"
  "timers (post st xs) = timers st" "db (post st xs) = db st"
  "sent (post st xs) = sent st @ xs" "pinged (post st xs) = pinged st"
  by (simp_all add: post_def)

lemma live_post [simp]: "live (post st xs) = live st"
  by (rule ext) (simp add: live_def split: option.splits)

lemma live_length: "length (live st p) \<le> 1"
  by (simp add: live_def split: option.splits)

lemma send_to_user_post: "send_to_user ev p s = post s (map (\<lambda>d. (d, ev)) (live s p))"
  by (simp add: send_to_user_def sendToClient_def live_def post_def split: option.splits)

lemma room_targets_post [simp]: "room_targets (post st xs) ps ex = room_targets st ps ex"
  by (simp add: room_targets_def)

lemma fold_room_post:
  "fold (\<lambda>p s. if Some p = ex then s else send_to_user ev p s) ps s =
     post s (map (\<lambda>d. (d, ev)) (room_targets s ps ex))"
proof (induction ps arbitrary: s)
  case Nil
  show ?case by (simp add: room_targets_def)
next
  case (Cons p ps)
  show ?case
    by (simp add: Cons.IH send_to_user_post) (simp add: room_targets_def)
qed

lemma broadcastToChat_post:
  "broadcastToChat st chatId ev ex = post st (map (\<lambda>d. (d, ev)) (chat_recipients st chatId ex))"
  by (simp add: broadcastToChat_def chat_recipients_def fold_room_post
           split: sum.splits option.splits)

lemma notify_Pair:
  "notify uid ev p (s, seen) =
     (if p = uid \<or> p \<in> set seen then (s, seen) else (send_to_user ev p s, seen @ [p]))"
  by (simp add: notify_def)

lemma fold_notify_post:
  "fold (notify uid ev) ps (s, seen) =
     (post s (map (\<lambda>d. (d, ev)) (concat (map (live s) (unseen uid seen ps)))),
      seen @ unseen uid seen ps)"
proof (induction ps arbitrary: s seen)
  case Nil
  show ?case by simp
next
  case (Cons p ps)
  show ?case
    by (simp add: notify_Pair Cons.IH send_to_user_post)
qed

lemma broadcastToUserChats_post:
  "broadcastToUserChats st uid ev =
     post st (map (\<lambda>d. (d, ev)) (concat (map (live st) (contacts st uid))))"
proof -
  have flat: "fold (\<lambda>ch acc. fold (notify uid ev) (populate st (participants ch)) acc) chs acc =
        fold (notify uid ev) (concat (map (\<lambda>ch. populate st (participants ch)) chs)) acc"
    for chs acc
    by (induction chs arbitrary: acc) simp_all
  show ?thesis
    unfolding broadcastToUserChats_def contacts_def flat fold_notify_post by simp
qed

lemma unseen_set: "set (unseen uid seen ps) = set ps - {uid} - set seen"
  by (induction ps arbitrary: seen) auto

lemma unseen_distinct: "distinct (unseen uid seen ps)"
  by (induction ps arbitrary: seen) (auto simp: unseen_set)

lemma User_setOffline_fields [simp]:
  "sockets (User_setOffline st u now) = sockets st"
  "clients (User_setOffline st u now) = clients st"
  "connectedUsers (User_setOffline st u now) = connectedUsers st"
  "typingUsers (User_setOffline st u now) = typingUsers st"
  "timers (User_setOffline st u now) = timers st"
  "sent (User_setOffline st u now) = sent st"
  "pinged (User_setOffline st u now) = pinged st"
  by (simp_all add: User_setOffline_def split: option.splits)

lemmas close_defs = emitClose_def handleDisconnection_def User_setOffline_def

lemma live_bound:
  assumes "registry_wf st" and "d \<in> set (live st p)"
  shows "userId (sockets st d) = Some p"
proof -
  from assms(2) have "map_of (connectedUsers st) p = Some d"
    by (auto simp: live_def split: option.splits if_splits)
  then have "(p, d) \<in> set (connectedUsers st)"
    by (rule map_of_SomeD)
  with assms(1) show ?thesis
    by (auto simp: registry_wf_def list_all_iff)
qed

lemma distinct_concat_live:
  assumes "registry_wf st" and "distinct ps"
  shows "distinct (concat (map (live st) ps))"
  using assms(2)
proof (induction ps)
  case Nil
  show ?case by simp
next
  case (Cons p ps)
  have one: "distinct (live st p)"
    by (simp add: live_def split: option.splits)
  have apart: "set (live st p) \<inter> set (live st q) = {}" if "q \<in> set ps" for q
  proof (rule ccontr)
    assume "set (live st p) \<inter> set (live st q) \<noteq> {}"
    then obtain d where "d \<in> set (live st p)" and "d \<in> set (live st q)"
      by auto
    then have "Some p = Some q"
      using live_bound [OF assms(1)] by metis
    with that Cons.prems show False by auto
  qed
  from Cons one apart show ?case by auto
qed

lemma frames_to_map:
  "frames_to d (map (\<lambda>e. (e, ev)) ds) = map (\<lambda>e. ev) (filter (\<lambda>e. e = d) ds)"
  by (induction ds) (simp_all add: frames_to_def)

lemma frames_to_append [simp]: "frames_to d (xs @ ys) = frames_to d xs @ frames_to d ys"
  by (simp add: frames_to_def)

lemma filter_eq_distinct:
  "distinct ds \<Longrightarrow> filter (\<lambda>e. e = d) ds = (if d \<in> set ds then [d] else [])"
  by (induction ds) auto

lemma contacts_iff:
  "p \<in> set (contacts st U) \<longleftrightarrow>
     p \<noteq> U \<and> (\<exists>ch \<in> set (Chat_find st U). p \<in> set (populate st (participants ch)))"
  by (auto simp: contacts_def unseen_set)

lemma live_cong:
  "connectedUsers s = connectedUsers t \<Longrightarrow> sockets s = sockets t \<Longrightarrow> live s = live t"
  by (rule ext) (simp add: live_def split: option.splits)

lemma chat_recipients_cong:
  assumes "db s = db t" and "connectedUsers s = connectedUsers t" and "sockets s = sockets t"
  shows "chat_recipients s = chat_recipients t"
proof -
  have "live s = live t"
    using assms(2,3) by (rule live_cong)
  then show ?thesis
    using assms(1)
    by (intro ext)
       (simp add: chat_recipients_def Chat_findById_def room_targets_def populate_def
             split: sum.splits option.splits)
qed

lemma chat_recipients_iff:
  "d \<in> set (chat_recipients st chatId ex) \<longleftrightarrow>
     (\<exists>k ch p. castObjectId (db st) chatId = Some k \<and> map_of (chats (db st)) k = Some ch \<and>
        p \<in> set (participants ch) \<and> users (db st) p \<noteq> None \<and> Some p \<noteq> ex \<and>
        map_of (connectedUsers st) p = Some d \<and> readyState (sockets st d) = OPEN)"
proof -
  have l: "d \<in> set (live st p) \<longleftrightarrow>
             map_of (connectedUsers st) p = Some d \<and> readyState (sockets st d) = OPEN" for p
    by (auto simp: live_def split: option.splits)
  show ?thesis
    by (auto simp: chat_recipients_def Chat_findById_def room_targets_def populate_def l
             split: option.splits) metis+
qed

lemma delete_absent: "map_of al k = None \<Longrightarrow> AList.delete k al = al"
  by (simp add: map_of_eq_None_iff)

lemmas msg_defs =
  handleSendMessage_def Chat_findOne_def new_Message_def trim_def is_ws_def keep_truthy_def
  keep_nonzero_def Message_insert_def Chat_save_def Message_populated_def broadcastToChat_def
  Chat_findById_def typingKey_def handleMessageRead_def Message_findById_def demo_payload_def
  populate_def send_to_user_def sendToClient_def








text \<open>The states of the small deployment, computed once.\<close>

lemma demo_ab_eq:
  "demo_ab =
     \<lparr>sockets = (\<lambda>_. \<lparr>userId = None, username = None, isAlive = None, readyState = CLOSED,
                       listeners = False, closeCode = None\<rparr>)
        (1 := \<lparr>userId = Some ''a'', username = Some ''ann'', isAlive = Some True,
               readyState = OPEN, listeners = True, closeCode = None\<rparr>,
         2 := \<lparr>userId = Some ''b'', username = Some ''bob'', isAlive = Some True,
               readyState = OPEN, listeners = True, closeCode = None\<rparr>),
      clients = [1, 2], connectedUsers = [(''a'', 1), (''b'', 2)], typingUsers = [], timers = [],
      db = \<lparr>users = [''c'' \<mapsto> \<lparr>u_username = ''cy'', isOnline = False, lastSeen = 0\<rparr>,
                     ''a'' \<mapsto> \<lparr>u_username = ''ann'', isOnline = True, lastSeen = 10\<rparr>,
                     ''b'' \<mapsto> \<lparr>u_username = ''bob'', isOnline = True, lastSeen = 20\<rparr>],
            chats = chats demo_db, messages = Map.empty, castObjectId = Some\<rparr>,
      sent = [(1, Connection_ev ''Connected successfully'' ''a'' 10),
              (1, User_online ''b'' ''bob'' 20),
              (2, Connection_ev ''Connected successfully'' ''b'' 20)],
      pinged = []\<rparr>"
  by (simp add: demo_ab_def conn_defs Let_def)

lemma demo_reconnect_eq:
  "demo_reconnect =
     \<lparr>sockets = (\<lambda>_. \<lparr>userId = None, username = None, isAlive = None, readyState = CLOSED,
                       listeners = False, closeCode = None\<rparr>)
        (1 := \<lparr>userId = Some ''a'', username = Some ''ann'', isAlive = Some True,
               readyState = OPEN, listeners = True, closeCode = None\<rparr>,
         2 := \<lparr>userId = Some ''b'', username = Some ''bob'', isAlive = Some True,
               readyState = OPEN, listeners = True, closeCode = None\<rparr>,
         3 := \<lparr>userId = Some ''a'', username = Some ''ann'', isAlive = Some True,
               readyState = OPEN, listeners = True, closeCode = None\<rparr>),
      clients = [1, 2, 3], connectedUsers = [(''a'', 3), (''b'', 2)], typingUsers = [],
      timers = [],
      db = \<lparr>users = [''c'' \<mapsto> \<lparr>u_username = ''cy'', isOnline = False, lastSeen = 0\<rparr>,
                     ''b'' \<mapsto> \<lparr>u_username = ''bob'', isOnline = True, lastSeen = 20\<rparr>,
                     ''a'' \<mapsto> \<lparr>u_username = ''ann'', isOnline = True, lastSeen = 30\<rparr>],
            chats = chats demo_db, messages = Map.empty, castObjectId = Some\<rparr>,
      sent = [(1, Connection_ev ''Connected successfully'' ''a'' 10),
              (1, User_online ''b'' ''bob'' 20),
              (2, Connection_ev ''Connected successfully'' ''b'' 20),
              (2, User_online ''a'' ''ann'' 30),
              (3, Connection_ev ''Connected successfully'' ''a'' 30)],
      pinged = []\<rparr>"
  unfolding demo_reconnect_def demo_ab_eq
  by (simp add: conn_defs Let_def)

lemma demo_sent_eq:
  "demo_sent =
     demo_ab\<lparr>db := (db demo_ab)
               \<lparr>messages := [''m1'' \<mapsto> \<lparr>sender = ''b'', chat = ''r'', content = ''hi'',
                    messageType = ''text'', fileUrl = None, fileName = None, fileSize = None,
                    isEdited = False, readBy = [], createdAt = 40\<rparr>],
                chats := [(''r'', \<lparr>c_type = Private, participants = [''a'', ''b''],
                                  admin = None, lastMessage = Some ''m1'', updatedAt = 40\<rparr>),
                          (''g'', \<lparr>c_type = Group, participants = [''a'', ''b'', ''c''],
                                  admin = Some ''a'', lastMessage = None, updatedAt = 0\<rparr>)]\<rparr>,
             sent := sent demo_ab @
               [(1, New_message (Some (''m1'', \<lparr>sender = ''b'', chat = ''r'', content = ''hi'',
                    messageType = ''text'', fileUrl = None, fileName = None, fileSize = None,
                    isEdited = False, readBy = [], createdAt = 40\<rparr>, Some ''bob'')) ''r'' 40),
                (2, New_message (Some (''m1'', \<lparr>sender = ''b'', chat = ''r'', content = ''hi'',
                    messageType = ''text'', fileUrl = None, fileName = None, fileSize = None,
                    isEdited = False, readBy = [], createdAt = 40\<rparr>, Some ''bob'')) ''r'' 40),
                (1, Typing_stop (Some ''b'') (Some ''bob'') ''r'' 40)]\<rparr>"
  unfolding demo_sent_def demo_ab_eq
  by (simp add: msg_defs conn_defs Let_def)

lemma demo_read_eq:
  "demo_read =
     demo_sent\<lparr>db := (db demo_sent)
               \<lparr>messages := [''m1'' \<mapsto> \<lparr>sender = ''b'', chat = ''r'', content = ''hi'',
                    messageType = ''text'', fileUrl = None, fileName = None, fileSize = None,
                    isEdited = False, readBy = [\<lparr>rr_user = ''a'', readAt = 50\<rparr>],
                    createdAt = 40\<rparr>]\<rparr>,
             sent := sent demo_sent @
               [(1, Message_read ''m1'' ''r'' (Some ''a'') (Some ''ann'') 50),
                (2, Message_read ''m1'' ''r'' (Some ''a'') (Some ''ann'') 50)]\<rparr>"
  unfolding demo_read_def demo_sent_eq demo_ab_eq
  by (simp add: msg_defs conn_defs Let_def)

lemmas demo_defs =
  demo_reconnect_eq demo_ab_eq demo_sent_eq demo_read_eq demo_payload_def conn_defs Let_def





lemma heartbeat_client_Pair:
  "heartbeat_client c (st, cl) =
     (st\<lparr>sockets := (sockets st)(c := hb_socket (sockets st c)),
         pinged := (if isAlive (sockets st c) \<noteq> Some False \<and> readyState (sockets st c) = OPEN
                    then pinged st @ [c] else pinged st)\<rparr>,
      if reaped st c then cl @ [c] else cl)"
  by (simp add: heartbeat_client_def hb_socket_def reaped_def Let_def)

lemma hb_loop:
  assumes "distinct cs"
  shows "\<exists>st'. fold heartbeat_client cs (st, cl) = (st', cl @ filter (reaped st) cs) \<and>
           clients st' = clients st \<and> connectedUsers st' = connectedUsers st \<and>
           typingUsers st' = typingUsers st \<and> timers st' = timers st \<and> db st' = db st \<and>
           sent st' = sent st \<and>
           (\<forall>e. sockets st' e = (if e \<in> set cs then hb_socket (sockets st e) else sockets st e)) \<and>
           (\<forall>e \<in> set cs. isAlive (sockets st e) \<noteq> Some False \<and> readyState (sockets st e) = OPEN \<longrightarrow>
                 e \<in> set (pinged st'))  \<and> set (pinged st) \<subseteq> set (pinged st')"
  using assms
proof (induction cs arbitrary: st cl)
  case Nil
  show ?case by simp
next
  case (Cons c cs)
  let ?st1 = "st\<lparr>sockets := (sockets st)(c := hb_socket (sockets st c)),
         pinged := (if isAlive (sockets st c) \<noteq> Some False \<and> readyState (sockets st c) = OPEN
                    then pinged st @ [c] else pinged st)\<rparr>"
  let ?cl1 = "if reaped st c then cl @ [c] else cl"
  from Cons.prems have nc: "c \<notin> set cs" and d: "distinct cs"
    by simp_all
  from Cons.IH [OF d, of ?st1 ?cl1] obtain st' where
    f: "fold heartbeat_client cs (?st1, ?cl1) = (st', ?cl1 @ filter (reaped ?st1) cs)" and
    fr: "clients st' = clients ?st1" "connectedUsers st' = connectedUsers ?st1"
        "typingUsers st' = typingUsers ?st1" "timers st' = timers ?st1" "db st' = db ?st1"
        "sent st' = sent ?st1" and
    so: "\<forall>e. sockets st' e = (if e \<in> set cs then hb_socket (sockets ?st1 e) else sockets ?st1 e)" and
    pi: "\<forall>e \<in> set cs. isAlive (sockets ?st1 e) \<noteq> Some False \<and> readyState (sockets ?st1 e) = OPEN \<longrightarrow>
                 e \<in> set (pinged st')" and
    ps: "set (pinged ?st1) \<subseteq> set (pinged st')"
    by blast
  have same: "reaped ?st1 e = reaped st e" if "e \<in> set cs" for e
    using that nc by (auto simp: reaped_def)
  then have fl: "filter (reaped ?st1) cs = filter (reaped st) cs"
    by (auto intro: filter_cong)
  have "fold heartbeat_client (c # cs) (st, cl) = (st', cl @ filter (reaped st) (c # cs))"
    using f by (simp add: heartbeat_client_Pair fl)
  moreover have "\<forall>e. sockets st' e = (if e \<in> set (c # cs) then hb_socket (sockets st e) else sockets st e)"
    using so nc by auto
  moreover have "\<forall>e \<in> set (c # cs). isAlive (sockets st e) \<noteq> Some False \<and> readyState (sockets st e) = OPEN \<longrightarrow>
                 e \<in> set (pinged st')"
  proof (intro ballI impI)
    fix e assume e: "e \<in> set (c # cs)"
      and a: "isAlive (sockets st e) \<noteq> Some False \<and> readyState (sockets st e) = OPEN"
    show "e \<in> set (pinged st')"
    proof (cases "e = c")
      case True
      with a have "c \<in> set (pinged ?st1)" by simp
      with ps True show ?thesis by blast
    next
      case False
      with e have m: "e \<in> set cs" by simp
      from False have "sockets ?st1 e = sockets st e" by simp
      with pi m a show ?thesis by metis
    qed
  qed
  moreover have "set (pinged st) \<subseteq> set (pinged st')"
    using ps by auto
  ultimately show ?case
    using fr by auto
qed


lemma emitClose_closes:
  assumes "closes s e u"
  shows "emitClose s e now =
           post (disconnected s e u now)
                (map (\<lambda>d. (d, User_offline (Some u) (username (sockets s e)) now))
                     (concat (map (live (disconnected s e u now))
                                  (contacts (disconnected s e u now) u))))"
  using assms
  by (simp add: closes_def emitClose_def handleDisconnection_def truthy_def js_str_def Let_def
        broadcastToUserChats_post disconnected_def)

lemma emitClose_other:
  assumes "\<not> (\<exists>u. closes s e u)"
  shows "emitClose s e now =
           s\<lparr>sockets := (sockets s)(e := (sockets s e)\<lparr>readyState := CLOSED\<rparr>),
             clients := removeAll e (clients s)\<rparr>"
  using assms
  by (auto simp: closes_def emitClose_def handleDisconnection_def truthy_def Let_def
           split: option.splits)

lemma disconnected_fields [simp]:
  "sockets (disconnected s e u now) = (sockets s)(e := (sockets s e)\<lparr>readyState := CLOSED\<rparr>)"
  "clients (disconnected s e u now) = removeAll e (clients s)"
  "connectedUsers (disconnected s e u now) = AList.delete u (connectedUsers s)"
  "typingUsers (disconnected s e u now) =
     filter (\<lambda>kt. tu_userId (snd kt) \<noteq> Some u) (typingUsers s)"
  "timers (disconnected s e u now) = timers s"
  "sent (disconnected s e u now) = sent s"
  by (simp_all add: disconnected_def)

lemma User_setOffline_db:
  "chats (db (User_setOffline s u now)) = chats (db s)"
  "messages (db (User_setOffline s u now)) = messages (db s)"
  "castObjectId (db (User_setOffline s u now)) = castObjectId (db s)"
  "users (db (User_setOffline s u now)) p =
     (if p = u then map_option (\<lambda>usr. usr\<lparr>isOnline := False, lastSeen := now\<rparr>) (users (db s) p)
      else users (db s) p)"
  by (simp_all add: User_setOffline_def split: option.splits)

lemma disconnected_db:
  "chats (db (disconnected s e u now)) = chats (db s)"
  "messages (db (disconnected s e u now)) = messages (db s)"
  "castObjectId (db (disconnected s e u now)) = castObjectId (db s)"
  "users (db (disconnected s e u now)) p =
     (if p = u then map_option (\<lambda>usr. usr\<lparr>isOnline := False, lastSeen := now\<rparr>) (users (db s) p)
      else users (db s) p)"
  by (simp_all add: disconnected_def User_setOffline_db)

lemma contacts_cong:
  assumes "chats (db s) = chats (db t)" and "\<And>p. users (db s) p = None \<longleftrightarrow> users (db t) p = None"
  shows "contacts s = contacts t"
  using assms by (intro ext) (simp add: contacts_def Chat_find_def populate_def)

text \<open>How one \<open>'close'\<close> event changes the state, written for both cases at once.\<close>

lemma emitClose_cases:
  obtains (bound) u where "closes s e u"
      "emitClose s e now =
         post (disconnected s e u now)
              (map (\<lambda>d. (d, User_offline (Some u) (username (sockets s e)) now))
                   (concat (map (live (disconnected s e u now))
                                (contacts (disconnected s e u now) u))))"
    | (unbound) "\<not> (\<exists>u. closes s e u)"
      "emitClose s e now =
         s\<lparr>sockets := (sockets s)(e := (sockets s e)\<lparr>readyState := CLOSED\<rparr>),
           clients := removeAll e (clients s)\<rparr>"
  using emitClose_closes emitClose_other by blast

lemma emitClose_sockets:
  "sockets (emitClose s e now) = (sockets s)(e := (sockets s e)\<lparr>readyState := CLOSED\<rparr>)"
  by (cases rule: emitClose_cases [of s e now]) simp_all

lemma emitClose_clients: "clients (emitClose s e now) = removeAll e (clients s)"
  by (cases rule: emitClose_cases [of s e now]) simp_all

lemma emitClose_sent: "\<exists>xs. sent (emitClose s e now) = sent s @ xs"
  by (cases rule: emitClose_cases [of s e now]) simp_all

lemma emitClose_registry:
  "map_of (connectedUsers (emitClose s e now)) p =
     (if closes s e p then None else map_of (connectedUsers s) p)"
  by (cases rule: emitClose_cases [of s e now]) (auto simp: delete_conv closes_def)

lemma emitClose_typing: "set (typingUsers (emitClose s e now)) \<subseteq> set (typingUsers s)"
  by (cases rule: emitClose_cases [of s e now]) auto

lemma emitClose_db:
  "chats (db (emitClose s e now)) = chats (db s)"
  "users (db (emitClose s e now)) p =
     (if closes s e p then map_option (\<lambda>usr. usr\<lparr>isOnline := False, lastSeen := now\<rparr>) (users (db s) p)
      else users (db s) p)"
  by (cases rule: emitClose_cases [of s e now]; auto simp: disconnected_db closes_def)+


lemma emitClose_pinged: "pinged (emitClose s e now) = pinged s"
  by (cases rule: emitClose_cases [of s e now]) (simp_all add: disconnected_def)

lemma emitClose_closes_same: "closes (emitClose s e now) d p = closes s d p"
  by (simp add: closes_def emitClose_sockets)

lemma emitClose_username: "username (sockets (emitClose s e now) d) = username (sockets s d)"
  by (simp add: emitClose_sockets)

lemma closeAll_invariant:
  assumes "P s" and "\<And>x e. P x \<Longrightarrow> e \<in> set L \<Longrightarrow> P (emitClose x e now)"
  shows "P (fold (\<lambda>e s. emitClose s e now) L s)"
  using assms
proof (induction L arbitrary: s)
  case Nil
  then show ?case by simp
next
  case (Cons e L)
  have "P (emitClose s e now)"
    using Cons.prems by simp
  then have "P (fold (\<lambda>e s. emitClose s e now) L (emitClose s e now))"
    by (rule Cons.IH) (simp add: Cons.prems(2))
  then show ?case by simp
qed

lemma closeAll_closes: "closes (fold (\<lambda>e s. emitClose s e now) L s) d p = closes s d p"
  by (rule closeAll_invariant [where P = "\<lambda>x. closes x d p = closes s d p"])
     (simp_all add: emitClose_closes_same)

lemma closeAll_sockets_other:
  "d \<notin> set L \<Longrightarrow> sockets (fold (\<lambda>e s. emitClose s e now) L s) d = sockets s d"
  by (rule closeAll_invariant [where P = "\<lambda>x. sockets x d = sockets s d"])
     (auto simp: emitClose_sockets)

lemma closeAll_clients_other:
  "d \<notin> set L \<Longrightarrow>
     d \<in> set (clients (fold (\<lambda>e s. emitClose s e now) L s)) \<longleftrightarrow> d \<in> set (clients s)"
  by (rule closeAll_invariant
        [where P = "\<lambda>x. d \<in> set (clients x) \<longleftrightarrow> d \<in> set (clients s)"])
     (auto simp: emitClose_clients)

lemma closeAll_distinct:
  "distinct (clients s) \<Longrightarrow> distinct (clients (fold (\<lambda>e s. emitClose s e now) L s))"
  by (rule closeAll_invariant [where P = "\<lambda>x. distinct (clients x)"])
     (simp_all add: emitClose_clients distinct_removeAll)

lemma closeAll_pinged: "pinged (fold (\<lambda>e s. emitClose s e now) L s) = pinged s"
  by (rule closeAll_invariant [where P = "\<lambda>x. pinged x = pinged s"])
     (simp_all add: emitClose_pinged)

lemma closeAll_sent: "\<exists>xs. sent (fold (\<lambda>e s. emitClose s e now) L s) = sent s @ xs"
proof (rule closeAll_invariant [where P = "\<lambda>x. \<exists>xs. sent x = sent s @ xs"])
  show "\<exists>xs. sent s = sent s @ xs" by simp
next
  fix x :: hub and e :: nat
  assume "\<exists>xs. sent x = sent s @ xs"
  then obtain xs where "sent x = sent s @ xs" ..
  moreover obtain ys where "sent (emitClose x e now) = sent x @ ys"
    using emitClose_sent by blast
  ultimately show "\<exists>xs. sent (emitClose x e now) = sent s @ xs" by simp
qed

lemma closeAll_registry_other:
  assumes "\<And>e. e \<in> set L \<Longrightarrow> \<not> closes s e p"
  shows "map_of (connectedUsers (fold (\<lambda>e s. emitClose s e now) L s)) p =
         map_of (connectedUsers s) p"
proof (rule closeAll_invariant
    [where P = "\<lambda>x. (\<forall>e. closes x e p = closes s e p) \<and>
                      map_of (connectedUsers x) p = map_of (connectedUsers s) p", THEN conjunct2])
  show "(\<forall>e. closes s e p = closes s e p) \<and>
        map_of (connectedUsers s) p = map_of (connectedUsers s) p"
    by simp
next
  fix x e
  assume inv: "(\<forall>e. closes x e p = closes s e p) \<and>
               map_of (connectedUsers x) p = map_of (connectedUsers s) p"
    and e: "e \<in> set L"
  with assms have "\<not> closes x e p" by simp
  with inv show "(\<forall>d. closes (emitClose x e now) d p = closes s d p) \<and>
        map_of (connectedUsers (emitClose x e now)) p = map_of (connectedUsers s) p"
    by (simp add: emitClose_closes_same emitClose_registry)
qed

lemma closeAll_registry_none:
  "map_of (connectedUsers s) u = None \<Longrightarrow>
     map_of (connectedUsers (fold (\<lambda>e s. emitClose s e now) L s)) u = None"
  by (rule closeAll_invariant [where P = "\<lambda>x. map_of (connectedUsers x) u = None"])
     (simp_all add: emitClose_registry)

lemma closeAll_typing:
  "\<forall>kt \<in> set (typingUsers s). tu_userId (snd kt) \<noteq> Some u \<Longrightarrow>
     \<forall>kt \<in> set (typingUsers (fold (\<lambda>e s. emitClose s e now) L s)). tu_userId (snd kt) \<noteq> Some u"
  by (rule closeAll_invariant
        [where P = "\<lambda>x. \<forall>kt \<in> set (typingUsers x). tu_userId (snd kt) \<noteq> Some u"])
     (use emitClose_typing in blast)+

lemma closeAll_offline:
  "\<forall>usr. users (db s) u = Some usr \<longrightarrow> \<not> isOnline usr \<and> lastSeen usr = now \<Longrightarrow>
     \<forall>usr. users (db (fold (\<lambda>e s. emitClose s e now) L s)) u = Some usr \<longrightarrow>
           \<not> isOnline usr \<and> lastSeen usr = now"
  by (rule closeAll_invariant
        [where P = "\<lambda>x. \<forall>usr. users (db x) u = Some usr \<longrightarrow> \<not> isOnline usr \<and> lastSeen usr = now"])
     (auto simp: emitClose_db)

lemma closeAll_contacts: "contacts (fold (\<lambda>e s. emitClose s e now) L s) = contacts s"
proof -
  have "chats (db (fold (\<lambda>e s. emitClose s e now) L s)) = chats (db s) \<and>
        (\<forall>p. users (db (fold (\<lambda>e s. emitClose s e now) L s)) p = None \<longleftrightarrow> users (db s) p = None)"
    by (rule closeAll_invariant
          [where P = "\<lambda>x. chats (db x) = chats (db s) \<and>
                           (\<forall>p. users (db x) p = None \<longleftrightarrow> users (db s) p = None)"])
       (auto simp: emitClose_db)
  then show ?thesis
    by (intro contacts_cong) auto
qed

lemma closeAll_closed:
  "readyState (sockets s c) = CLOSED \<Longrightarrow> c \<notin> set (clients s) \<Longrightarrow>
     readyState (sockets (fold (\<lambda>e s. emitClose s e now) L s) c) = CLOSED \<and>
     c \<notin> set (clients (fold (\<lambda>e s. emitClose s e now) L s))"
  by (rule closeAll_invariant
        [where P = "\<lambda>x. readyState (sockets x c) = CLOSED \<and> c \<notin> set (clients x)"])
     (auto simp: emitClose_sockets emitClose_clients)


lemma heartbeat_unfold:
  assumes "distinct (clients s)"
  obtains s1 where
    "heartbeat s now = fold (\<lambda>e x. emitClose x e now) (filter (reaped s) (clients s)) s1"
    "clients s1 = clients s" "connectedUsers s1 = connectedUsers s"
    "typingUsers s1 = typingUsers s" "db s1 = db s" "sent s1 = sent s"
    "\<And>e. sockets s1 e = (if e \<in> set (clients s) then hb_socket (sockets s e) else sockets s e)"
    "\<And>e. e \<in> set (clients s) \<Longrightarrow> isAlive (sockets s e) \<noteq> Some False \<Longrightarrow>
          readyState (sockets s e) = OPEN \<Longrightarrow> e \<in> set (pinged s1)"
proof -
  from hb_loop [OF assms, of s "[]"] obtain s1 where
    f: "fold heartbeat_client (clients s) (s, []) = (s1, [] @ filter (reaped s) (clients s))" and
    r: "clients s1 = clients s" "connectedUsers s1 = connectedUsers s"
       "typingUsers s1 = typingUsers s" "db s1 = db s" "sent s1 = sent s"
       "\<forall>e. sockets s1 e = (if e \<in> set (clients s) then hb_socket (sockets s e) else sockets s e)"
       "\<forall>e \<in> set (clients s). isAlive (sockets s e) \<noteq> Some False \<and> readyState (sockets s e) = OPEN \<longrightarrow>
                 e \<in> set (pinged s1)"
    by blast
  from f have h: "heartbeat s now = fold (\<lambda>e x. emitClose x e now) (filter (reaped s) (clients s)) s1"
    by (simp add: heartbeat_def)
  show ?thesis
    by (rule that [of s1]) (use h r in auto)
qed

lemma first_tick:
  assumes dist: "distinct (clients st)" and c: "c \<in> set (clients st)"
    and alive: "isAlive (sockets st c) = Some True" and op: "readyState (sockets st c) = OPEN"
  shows "c \<in> set (clients (heartbeat st now)) \<and>
         sockets (heartbeat st now) c = (sockets st c)\<lparr>isAlive := Some False\<rparr> \<and>
         c \<in> set (pinged (heartbeat st now)) \<and> distinct (clients (heartbeat st now))"
proof -
  obtain s1 where
    h: "heartbeat st now = fold (\<lambda>e x. emitClose x e now) (filter (reaped st) (clients st)) s1" and
    cl: "clients s1 = clients st" and
    so: "\<And>e. sockets s1 e = (if e \<in> set (clients st) then hb_socket (sockets st e) else sockets st e)" and
    pi: "\<And>e. e \<in> set (clients st) \<Longrightarrow> isAlive (sockets st e) \<noteq> Some False \<Longrightarrow>
          readyState (sockets st e) = OPEN \<Longrightarrow> e \<in> set (pinged s1)"
    by (rule heartbeat_unfold [OF dist, of now]) blast
  have nr: "c \<notin> set (filter (reaped st) (clients st))"
    using alive by (simp add: reaped_def)
  have "sockets s1 c = (sockets st c)\<lparr>isAlive := Some False\<rparr>"
    using so [of c] c alive by (simp add: hb_socket_def)
  moreover have "c \<in> set (pinged s1)"
    using pi [OF c] alive op by simp
  moreover have "distinct (clients s1)" "c \<in> set (clients s1)"
    using cl dist c by simp_all
  ultimately show ?thesis
    unfolding h
    by (simp add: closeAll_sockets_other [OF nr] closeAll_clients_other [OF nr] closeAll_pinged
          closeAll_distinct)
qed


lemma hb_socket_fields [simp]:
  "userId (hb_socket ws) = userId ws" "username (hb_socket ws) = username ws"
  "listeners (hb_socket ws) = listeners ws"
  by (simp_all add: hb_socket_def)

lemma second_tick:
  assumes dist: "distinct (clients s)" and c: "c \<in> set (clients s)"
    and flag: "isAlive (sockets s c) = Some False"
    and nclosed: "readyState (sockets s c) \<noteq> CLOSED"
    and bound: "listeners (sockets s c)" "userId (sockets s c) = Some u" "u \<noteq> []"
  shows "c \<notin> set (clients (heartbeat s now)) \<and>
         readyState (sockets (heartbeat s now) c) = CLOSED \<and>
         map_of (connectedUsers (heartbeat s now)) u = None \<and>
         (\<forall>kt \<in> set (typingUsers (heartbeat s now)). tu_userId (snd kt) \<noteq> Some u) \<and>
         (\<forall>usr. users (db (heartbeat s now)) u = Some usr \<longrightarrow>
                \<not> isOnline usr \<and> lastSeen usr = now) \<and>
         (\<forall>p d. p \<in> set (contacts s u) \<and> map_of (connectedUsers s) p = Some d \<and>
                readyState (sockets s d) = OPEN \<and> \<not> (d \<in> set (clients s) \<and> reaped s d) \<and>
                (\<forall>e \<in> set (clients s). reaped s e \<longrightarrow> userId (sockets s e) \<noteq> Some p) \<longrightarrow>
                (d, User_offline (Some u) (username (sockets s c)) now)
                  \<in> set (drop (length (sent s)) (sent (heartbeat s now))))"
proof -
  let ?close = "\<lambda>e x. emitClose x e now"
  let ?L = "filter (reaped s) (clients s)"
  obtain s1 where
    h: "heartbeat s now = fold ?close ?L s1" and
    cl: "clients s1 = clients s" and reg: "connectedUsers s1 = connectedUsers s" and
    dbs: "db s1 = db s" and sn: "sent s1 = sent s" and
    so: "\<And>e. sockets s1 e = (if e \<in> set (clients s) then hb_socket (sockets s e) else sockets s e)"
    by (rule heartbeat_unfold [OF dist, of now]) blast
  have "c \<in> set ?L"
    using c flag nclosed by (simp add: reaped_def)
  then obtain pre rest where L: "?L = pre @ c # rest"
    by (auto dest: split_list)
  have "distinct ?L"
    using dist by simp
  then have npre: "c \<notin> set pre" and nrest: "c \<notin> set rest"
    unfolding L by simp_all
  have sub: "set pre \<subseteq> set ?L"
    unfolding L by auto
  let ?sb = "fold ?close pre s1"
  let ?D = "disconnected ?sb c u now"
  let ?off = "User_offline (Some u) (username (sockets s c)) now"
  let ?fan = "map (\<lambda>d. (d, ?off)) (concat (map (live ?D) (contacts ?D u)))"
  let ?sc = "emitClose ?sb c now"
  have split: "heartbeat s now = fold ?close rest ?sc"
    by (simp add: h L)
  have c1: "closes s1 c u"
    using bound c by (simp add: closes_def so)
  then have cb: "closes ?sb c u"
    by (simp add: closeAll_closes)
  have un: "username (sockets ?sb c) = username (sockets s c)"
    using c by (simp add: closeAll_sockets_other [OF npre] so)
  have sc: "?sc = post ?D ?fan"
    using emitClose_closes [OF cb, of now] by (simp add: un)
  \<comment> \<open>the state right after the close event of \<open>c\<close>\<close>
  have "readyState (sockets ?sc c) = CLOSED" "c \<notin> set (clients ?sc)"
    by (simp_all add: sc)
  then have closed: "readyState (sockets (heartbeat s now) c) = CLOSED \<and>
                     c \<notin> set (clients (heartbeat s now))"
    unfolding split by (rule closeAll_closed)
  have "map_of (connectedUsers ?sc) u = None"
    by (simp add: sc delete_conv)
  then have registry: "map_of (connectedUsers (heartbeat s now)) u = None"
    unfolding split by (rule closeAll_registry_none)
  have "\<forall>kt \<in> set (typingUsers ?sc). tu_userId (snd kt) \<noteq> Some u"
    by (simp add: sc)
  then have typing: "\<forall>kt \<in> set (typingUsers (heartbeat s now)). tu_userId (snd kt) \<noteq> Some u"
    unfolding split by (rule closeAll_typing)
  have "\<forall>usr. users (db ?sc) u = Some usr \<longrightarrow> \<not> isOnline usr \<and> lastSeen usr = now"
    by (auto simp: sc disconnected_db)
  then have offline: "\<forall>usr. users (db (heartbeat s now)) u = Some usr \<longrightarrow>
                            \<not> isOnline usr \<and> lastSeen usr = now"
    unfolding split by (rule closeAll_offline)
  \<comment> \<open>the fanout\<close>
  obtain xs where xs: "sent ?sb = sent s @ xs"
    using closeAll_sent [of now pre s1] sn by auto
  obtain ys where ys: "sent (heartbeat s now) = sent ?sc @ ys"
    unfolding split using closeAll_sent [of now rest ?sc] by auto
  have out: "drop (length (sent s)) (sent (heartbeat s now)) = xs @ ?fan @ ys"
    by (simp add: ys sc xs)
  have cont: "contacts ?D = contacts s"
  proof -
    have "contacts ?D = contacts ?sb"
      by (rule contacts_cong) (simp_all add: disconnected_db)
    also have "\<dots> = contacts s1"
      by (rule closeAll_contacts)
    also have "\<dots> = contacts s"
      by (rule contacts_cong) (simp_all add: dbs)
    finally show ?thesis .
  qed
  have fanout: "(d, ?off) \<in> set (drop (length (sent s)) (sent (heartbeat s now)))"
    if p: "p \<in> set (contacts s u)" and r: "map_of (connectedUsers s) p = Some d"
      and o: "readyState (sockets s d) = OPEN"
      and nd: "\<not> (d \<in> set (clients s) \<and> reaped s d)"
      and np: "\<forall>e \<in> set (clients s). reaped s e \<longrightarrow> userId (sockets s e) \<noteq> Some p"
    for p d
  proof -
    from p have pu: "p \<noteq> u"
      by (simp add: contacts_iff)
    have nL: "d \<notin> set ?L"
      using nd by auto
    with sub have dpre: "d \<notin> set pre" by blast
    from nL \<open>c \<in> set ?L\<close> have dc: "d \<noteq> c" by auto
    have "\<not> closes s1 e p" if "e \<in> set pre" for e
    proof -
      from that sub have "e \<in> set (clients s)" "reaped s e" by auto
      with np have "userId (sockets s e) \<noteq> Some p" by blast
      with \<open>e \<in> set (clients s)\<close> show ?thesis
        by (simp add: closes_def so)
    qed
    then have "map_of (connectedUsers ?sb) p = map_of (connectedUsers s1) p"
      by (rule closeAll_registry_other)
    with r reg pu have rD: "map_of (connectedUsers ?D) p = Some d"
      by (simp add: delete_conv)
    have "sockets ?sb d = sockets s1 d"
      using dpre by (rule closeAll_sockets_other)
    moreover have "readyState (sockets s1 d) = OPEN"
      using o nd by (auto simp: so hb_socket_def reaped_def)
    ultimately have oD: "readyState (sockets ?D d) = OPEN"
      using dc by simp
    from rD oD have "d \<in> set (live ?D p)"
      by (simp add: live_def)
    with p have "d \<in> set (concat (map (live ?D) (contacts ?D u)))"
      unfolding cont by auto
    then show ?thesis
      unfolding out by auto
  qed
  from closed registry typing offline fanout show ?thesis
    by blast
qed


lemma demo_tick_eq:
  "demo_tick =
     demo_ab\<lparr>sockets := (sockets demo_ab)
               (1 := (sockets demo_ab 1)\<lparr>isAlive := Some False\<rparr>,
                2 := (sockets demo_ab 2)\<lparr>isAlive := Some False\<rparr>),
             pinged := [1, 2]\<rparr>"
  unfolding demo_tick_def by (simp add: heartbeat_def heartbeat_client_def demo_defs)

lemma demo_pong_eq:
  "demo_pong =
     demo_ab\<lparr>sockets := (sockets demo_ab)(1 := (sockets demo_ab 1)\<lparr>isAlive := Some False\<rparr>),
             pinged := [1, 2]\<rparr>"
  unfolding demo_pong_def demo_tick_eq by (simp add: emitPong_def demo_defs fun_eq_iff)

subsection \<open>Disconnection\<close>

text \<open>
  Claim C10. If a connection closes before a user identity was bound to it, the
  disconnect handling changes nothing: \<^verbatim>\<open>handleDisconnection\<close> returns the state as it
  was, and the whole \<^verbatim>\<open>'close'\<close> event leaves the registry, the typing claims, the
  database (presence included), the log of sent frames and the pending timers unchanged.
\<close>

theorem disconnect_unbound_is_noop:
  assumes "userId (sockets st c) = None"
  shows "handleDisconnection st c now = st \<and>
         connectedUsers (emitClose st c now) = connectedUsers st \<and>
         typingUsers (emitClose st c now) = typingUsers st \<and>
         db (emitClose st c now) = db st \<and>
         sent (emitClose st c now) = sent st \<and>
         timers (emitClose st c now) = timers st"
  using assms by (simp add: handleDisconnection_def emitClose_def truthy_def Let_def)

text \<open>Witness for C10: connection 7 arrives without a token, is refused with code 4001
  and has no identity bound; its disconnection is the identity on the state.\<close>

theorem disconnect_unbound_is_noop_witness:
  "userId (sockets (on_connection demo_hub 7 None None demo_verify 5) 7) = None \<and>
   closeCode (sockets (on_connection demo_hub 7 None None demo_verify 5) 7) =
      Some (4001, ''Unauthorized: No token provided'') \<and>
   handleDisconnection (on_connection demo_hub 7 None None demo_verify 5) 7 6 =
      on_connection demo_hub 7 None None demo_verify 5"
proof -
  have h: "userId (sockets (on_connection demo_hub 7 None None demo_verify 5) 7) = None"
    by (simp add: conn_defs)
  show ?thesis using h disconnect_unbound_is_noop [OF h, of 6] by (simp add: conn_defs)
qed

text \<open>
  Claim C1, as stated, fails. In \<open>demo_reconnect\<close> user \<open>a\<close> has reconnected on
  connection 3 while the older connection 1 is still bound to \<open>a\<close>; the registry holds
  connection 3. When connection 1 closes, the entry of \<open>a\<close> is gone although it held the
  newer connection.
\<close>

theorem stale_disconnect_counterexample:
  "map_of (connectedUsers demo_reconnect) ''a'' = Some 3 \<and>
   userId (sockets demo_reconnect 1) = Some ''a'' \<and>
   listeners (sockets demo_reconnect 1) \<and>
   map_of (connectedUsers (emitClose demo_reconnect 1 40)) ''a'' = None"
  by (simp add: demo_defs close_defs)

text \<open>
  Claim C1, amended. When the disconnect path runs for a connection bound to a non-empty
  identity \<open>u\<close>, the registry entry of \<open>u\<close> is deleted by key, whichever connection it
  holds; the entries of all other identities stay as they were.
\<close>

theorem disconnect_deletes_entry_by_key:
  assumes "userId (sockets st c) = Some u" and "u \<noteq> []"
  shows "connectedUsers (handleDisconnection st c now) = AList.delete u (connectedUsers st) \<and>
         map_of (connectedUsers (handleDisconnection st c now)) u = None \<and>
         (\<forall>v. v \<noteq> u \<longrightarrow>
            map_of (connectedUsers (handleDisconnection st c now)) v =
            map_of (connectedUsers st) v)"
  using assms
  by (simp add: handleDisconnection_def truthy_def js_str_def Let_def broadcastToUserChats_post
        delete_conv)

text \<open>Witness for the amended C1, in the reconnect scenario.\<close>

theorem disconnect_deletes_entry_by_key_witness:
  "userId (sockets demo_reconnect 1) = Some ''a'' \<and> ''a'' \<noteq> [] \<and>
   map_of (connectedUsers demo_reconnect) ''a'' = Some 3 \<and>
   map_of (connectedUsers demo_reconnect) ''b'' = Some 2 \<and>
   map_of (connectedUsers (handleDisconnection demo_reconnect 1 40)) ''a'' = None \<and>
   map_of (connectedUsers (handleDisconnection demo_reconnect 1 40)) ''b'' = Some 2"
proof -
  have h: "userId (sockets demo_reconnect 1) = Some ''a''"
    by (simp add: demo_defs)
  have r: "connectedUsers demo_reconnect = [(''a'', 3), (''b'', 2)]"
    by (simp add: demo_defs)
  from disconnect_deletes_entry_by_key [OF h, of 40] h r show ?thesis
    by simp
qed

subsection \<open>Presence fanout\<close>

text \<open>
  Claim C7. \<^verbatim>\<open>broadcastToUserChats\<close> (the spec's \<open>sendToUserRooms\<close>) for user \<open>U\<close> and event
  \<open>E\<close> writes one frame per reachable contact: the frames it adds are \<open>E\<close> on the live
  connection of each identity in \<open>contacts st U\<close>, a duplicate-free list of the
  identities other than \<open>U\<close> that share a room with \<open>U\<close>, and an identity has at most one
  live connection. So, the registry being well formed, no connection gets \<open>E\<close> more than
  once, however many rooms its user shares with \<open>U\<close>, and no connection bound to \<open>U\<close>
  gets it at all.
\<close>

theorem presence_fanout_once_per_contact:
  "sent (broadcastToUserChats st U E) =
     sent st @ map (\<lambda>d. (d, E)) (concat (map (live st) (contacts st U))) \<and>
   distinct (contacts st U) \<and> U \<notin> set (contacts st U) \<and>
   (\<forall>p. p \<in> set (contacts st U) \<longleftrightarrow>
        p \<noteq> U \<and> (\<exists>ch \<in> set (Chat_find st U). p \<in> set (populate st (participants ch)))) \<and>
   (\<forall>p. length (live st p) \<le> 1) \<and>
   (registry_wf st \<longrightarrow>
      (\<forall>d. length (frames_to d (drop (length (sent st)) (sent (broadcastToUserChats st U E)))) \<le> 1 \<and>
           (userId (sockets st d) = Some U \<longrightarrow>
              frames_to d (drop (length (sent st)) (sent (broadcastToUserChats st U E))) = [])))"
proof -
  let ?ds = "concat (map (live st) (contacts st U))"
  have s: "sent (broadcastToUserChats st U E) = sent st @ map (\<lambda>d. (d, E)) ?ds"
    by (simp add: broadcastToUserChats_post)
  have d: "distinct (contacts st U)" and n: "U \<notin> set (contacts st U)"
    by (simp_all add: contacts_def unseen_distinct unseen_set)
  have w: "length (frames_to d (map (\<lambda>d. (d, E)) ?ds)) \<le> 1 \<and>
           (userId (sockets st d) = Some U \<longrightarrow> frames_to d (map (\<lambda>d. (d, E)) ?ds) = [])"
    if wf: "registry_wf st" for d
  proof -
    have dd: "distinct ?ds"
      using wf d by (rule distinct_concat_live)
    have "d \<notin> set ?ds" if "userId (sockets st d) = Some U"
    proof
      assume "d \<in> set ?ds"
      then obtain p where "p \<in> set (contacts st U)" and "d \<in> set (live st p)"
        by auto
      with live_bound [OF wf] that n show False by fastforce
    qed
    with dd show ?thesis
      by (simp add: frames_to_map filter_eq_distinct)
  qed
  have l: "\<forall>p. length (live st p) \<le> 1"
    by (simp add: live_def split: option.splits)
  have e: "drop (length (sent st)) (sent (broadcastToUserChats st U E)) = map (\<lambda>d. (d, E)) ?ds"
    by (simp add: s)
  show ?thesis
    unfolding e using s d n l w contacts_iff by blast
qed


text \<open>Witness for C7: \<open>b\<close> shares both rooms with \<open>a\<close> and gets the event once; \<open>c\<close> is not
  connected.\<close>

theorem presence_fanout_once_per_contact_witness:
  "registry_wf demo_ab \<and> contacts demo_ab ''a'' = [''b'', ''c''] \<and>
   length (filter (\<lambda>ch. ''b'' \<in> set (participants ch)) (Chat_find demo_ab ''a'')) = 2 \<and>
   sent (broadcastToUserChats demo_ab ''a'' (User_offline (Some ''a'') (Some ''ann'') 50)) =
     sent demo_ab @ [(2, User_offline (Some ''a'') (Some ''ann'') 50)]"
proof -
  have wf: "registry_wf demo_ab"
    by (simp add: registry_wf_def demo_defs)
  have c: "contacts demo_ab ''a'' = [''b'', ''c'']"
    by (simp add: contacts_def demo_defs)
  have l: "live demo_ab ''b'' = [2]" "live demo_ab ''c'' = []"
    by (simp_all add: live_def demo_defs)
  have r: "length (filter (\<lambda>ch. ''b'' \<in> set (participants ch)) (Chat_find demo_ab ''a'')) = 2"
    by (simp add: demo_defs)
  from presence_fanout_once_per_contact [of demo_ab "''a''" "User_offline (Some ''a'') (Some ''ann'') 50"] wf c l r
  show ?thesis by simp
qed


subsection \<open>Typing stop\<close>

text \<open>
  Claim C3, as stated, fails. In \<open>demo_ab\<close> nobody is typing; \<open>a\<close> sends \<^verbatim>\<open>typing_stop\<close>
  for the private room, and \<open>b\<close> is sent a \<^verbatim>\<open>typing_stop\<close> frame although no claim
  existed.
\<close>

theorem typing_stop_without_claim_counterexample:
  "map_of (typingUsers demo_ab) (typingKey demo_ab 1 ''r'') = None \<and>
   sent (handleTypingStop demo_ab 1 ''r'' 50) =
     sent demo_ab @ [(2, Typing_stop (Some ''a'') (Some ''ann'') ''r'' 50)]"
  by (simp add: demo_defs handleTypingStop_def typingKey_def broadcastToChat_def Chat_findById_def)


text \<open>
  Claim C3, amended. Processing \<^verbatim>\<open>typing_stop\<close> from \<open>U\<close> for room \<open>R\<close> deletes the claim
  of \<open>(U, R)\<close> if there is one and, whether or not there was one, sends \<^verbatim>\<open>typing_stop\<close> to
  the reachable members of \<open>R\<close> other than \<open>U\<close>; nothing else changes. With no claim the
  typing map stays as it is and the fanout is emitted all the same.
\<close>

theorem typing_stop_always_fans_out:
  "handleTypingStop st c R now =
     post (st\<lparr>typingUsers := AList.delete (typingKey st c R) (typingUsers st)\<rparr>)
          (map (\<lambda>d. (d, Typing_stop (userId (sockets st c)) (username (sockets st c)) R now))
               (chat_recipients st R (userId (sockets st c)))) \<and>
   (map_of (typingUsers st) (typingKey st c R) = None \<longrightarrow>
      typingUsers (handleTypingStop st c R now) = typingUsers st \<and>
      sent (handleTypingStop st c R now) =
        sent st @ map (\<lambda>d. (d, Typing_stop (userId (sockets st c)) (username (sockets st c)) R now))
                      (chat_recipients st R (userId (sockets st c))))"
proof -
  let ?st1 = "st\<lparr>typingUsers := AList.delete (typingKey st c R) (typingUsers st)\<rparr>"
  have "chat_recipients ?st1 = chat_recipients st"
    by (rule chat_recipients_cong) simp_all
  then show ?thesis
    by (simp add: handleTypingStop_def Let_def broadcastToChat_post delete_absent)
qed


text \<open>Witness for the amended C3, at the input of the counterexample.\<close>

theorem typing_stop_always_fans_out_witness:
  "map_of (typingUsers demo_ab) (typingKey demo_ab 1 ''r'') = None \<and>
   chat_recipients demo_ab ''r'' (Some ''a'') = [2] \<and>
   typingUsers (handleTypingStop demo_ab 1 ''r'' 50) = typingUsers demo_ab \<and>
   sent (handleTypingStop demo_ab 1 ''r'' 50) =
     sent demo_ab @ [(2, Typing_stop (Some ''a'') (Some ''ann'') ''r'' 50)]"
proof -
  have t: "typingUsers demo_ab = []"
    by (simp add: demo_defs)
  then have h: "map_of (typingUsers demo_ab) (typingKey demo_ab 1 ''r'') = None"
    by simp
  have r: "chat_recipients demo_ab ''r'' (Some ''a'') = [2]"
    by (simp add: chat_recipients_def Chat_findById_def room_targets_def live_def demo_defs)
  have w: "userId (sockets demo_ab 1) = Some ''a''" "username (sockets demo_ab 1) = Some ''ann''"
    by (simp_all add: demo_defs)
  from typing_stop_always_fans_out [of demo_ab 1 "''r''" 50] h r w t show ?thesis
    by simp
qed


subsection \<open>Sending a message without being a member\<close>

text \<open>
  Claim C5. Let \<open>U\<close> send \<^verbatim>\<open>send_message\<close> on an open connection for a room id that
  denotes no room with \<open>U\<close> among its participants. Then the handler's whole effect is
  one \<^verbatim>\<open>error\<close> frame on the sender's connection: the resulting state is the old one with
  that frame appended to the log, so no message is stored, the room (its last-message
  pointer included) and the typing claims are unchanged, and no other connection is
  sent anything.
\<close>

theorem send_message_non_member:
  assumes "userId (sockets st c) = Some u"
    and "readyState (sockets st c) = OPEN"
    and "\<forall>k ch. castObjectId (db st) (p_chatId p) = Some k \<longrightarrow>
                map_of (chats (db st)) k = Some ch \<longrightarrow> u \<notin> set (participants ch)"
  shows "\<exists>m. handleSendMessage st c p mid now = st\<lparr>sent := sent st @ [(c, Error_ev m None)]\<rparr>"
proof (cases "castObjectId (db st) (p_chatId p)")
  case None
  with assms(2) have "handleSendMessage st c p mid now =
      st\<lparr>sent := sent st @ [(c, Error_ev ''Failed to send message'' None)]\<rparr>"
    by (simp add: handleSendMessage_def Chat_findOne_def sendToClient_def)
  then show ?thesis ..
next
  case (Some k)
  with assms have "Chat_findOne st (p_chatId p) (userId (sockets st c)) = Inr None"
    by (auto simp: Chat_findOne_def list_ex_iff split: option.splits)
  with assms(2) have "handleSendMessage st c p mid now =
      st\<lparr>sent := sent st @ [(c, Error_ev ''Chat not found or access denied'' None)]\<rparr>"
    by (simp add: handleSendMessage_def sendToClient_def)
  then show ?thesis ..
qed


text \<open>Witness for C5: \<open>c\<close> connects on connection 4 and sends to the private room of \<open>a\<close>
  and \<open>b\<close>.\<close>

theorem send_message_non_member_witness:
  "userId (sockets (on_connection demo_ab 4 (Some ''tc'') None demo_verify 30) 4) = Some ''c'' \<and>
   handleSendMessage (on_connection demo_ab 4 (Some ''tc'') None demo_verify 30) 4
      \<lparr>p_chatId = ''r'', p_content = ''hi'', p_messageType = None, p_fileUrl = None,
       p_fileName = None, p_fileSize = None\<rparr> ''m1'' 40 =
   (on_connection demo_ab 4 (Some ''tc'') None demo_verify 30)
      \<lparr>sent := sent (on_connection demo_ab 4 (Some ''tc'') None demo_verify 30) @
                [(4, Error_ev ''Chat not found or access denied'' None)]\<rparr>"
proof -
  let ?st = "on_connection demo_ab 4 (Some ''tc'') None demo_verify 30"
  let ?p = "\<lparr>p_chatId = ''r'', p_content = ''hi'', p_messageType = None, p_fileUrl = None,
       p_fileName = None, p_fileSize = None\<rparr>"
  have u: "userId (sockets ?st 4) = Some ''c''"
    by (simp add: demo_defs)
  have r: "readyState (sockets ?st 4) = OPEN"
    by (simp add: demo_defs)
  have d: "db ?st = (db demo_ab)\<lparr>users := (users (db demo_ab))(''c'' := Some \<lparr>u_username = ''cy'', isOnline = True, lastSeen = 30\<rparr>)\<rparr>"
    by (simp add: demo_defs)
  have n: "\<forall>k ch. castObjectId (db ?st) (p_chatId ?p) = Some k \<longrightarrow>
                map_of (chats (db ?st)) k = Some ch \<longrightarrow> ''c'' \<notin> set (participants ch)"
    by (simp add: demo_defs)
  from send_message_non_member [OF u r n, of "''m1''" 40] obtain m where
    e: "handleSendMessage ?st 4 ?p ''m1'' 40 = ?st\<lparr>sent := sent ?st @ [(4, Error_ev m None)]\<rparr>"
    by blast
  have "sent (handleSendMessage ?st 4 ?p ''m1'' 40) = sent ?st @ [(4, Error_ev ''Chat not found or access denied'' None)]"
    by (simp add: handleSendMessage_def Chat_findOne_def sendToClient_def demo_defs)
  with e have "m = ''Chat not found or access denied''"
    by simp
  with e u show ?thesis by simp
qed



subsection \<open>Absent resources\<close>

text \<open>
  Claim C9, as stated, fails. \<open>a\<close> sends \<^verbatim>\<open>message_read\<close> for the id \<open>zz\<close>, which is no
  stored message; the connection is open, yet the state after the event is the state
  before it: no \<^verbatim>\<open>error\<close> frame, and no other frame, is sent.
\<close>

theorem message_read_unknown_is_silent_counterexample:
  "Message_findById demo_ab ''zz'' = Inr None \<and> readyState (sockets demo_ab 1) = OPEN \<and>
   emitMessage demo_ab 1 (Message_read_frame ''zz'' ''r'') ''m1'' 60 = demo_ab"
  by (simp add: emitMessage_def handleMessage_def msg_defs demo_defs)


text \<open>
  Claim C9, amended. A \<^verbatim>\<open>message_read\<close> whose \<^verbatim>\<open>messageId\<close> matches no stored message is
  dropped silently: nothing is sent, not even to the sender, and the state is unchanged.
  A \<^verbatim>\<open>send_message\<close> or \<^verbatim>\<open>join_room\<close> for a room id that matches no stored room is
  answered by one \<^verbatim>\<open>error\<close> frame on the sender's open connection and changes nothing
  else.
\<close>

theorem absent_resource_replies:
  "(castObjectId (db st) messageId = Some k \<and> messages (db st) k = None \<longrightarrow>
      handleMessage st c (Message_read_frame messageId chatId) mid now = st) \<and>
   (castObjectId (db st) (p_chatId p) = Some k \<and> map_of (chats (db st)) k = None \<and>
    readyState (sockets st c) = OPEN \<longrightarrow>
      handleMessage st c (Send_message p) mid now =
        st\<lparr>sent := sent st @ [(c, Error_ev ''Chat not found or access denied'' None)]\<rparr>) \<and>
   (castObjectId (db st) chatId = Some k \<and> map_of (chats (db st)) k = None \<and>
    readyState (sockets st c) = OPEN \<longrightarrow>
      handleMessage st c (Join_room chatId) mid now =
        st\<lparr>sent := sent st @ [(c, Error_ev ''Chat not found or access denied'' None)]\<rparr>)"
  by (simp add: handleMessage_def handleMessageRead_def Message_findById_def
        handleSendMessage_def handleJoinRoom_def Chat_findOne_def sendToClient_def)


text \<open>Witness for the amended C9, with the unknown id \<open>zz\<close>.\<close>

theorem absent_resource_replies_witness:
  "castObjectId (db demo_ab) ''zz'' = Some ''zz'' \<and> messages (db demo_ab) ''zz'' = None \<and>
   map_of (chats (db demo_ab)) ''zz'' = None \<and> readyState (sockets demo_ab 1) = OPEN \<and>
   handleMessage demo_ab 1 (Message_read_frame ''zz'' ''zz'') ''m1'' 60 = demo_ab \<and>
   sent (handleMessage demo_ab 1 (Send_message (demo_payload\<lparr>p_chatId := ''zz''\<rparr>)) ''m1'' 60) =
     sent demo_ab @ [(1, Error_ev ''Chat not found or access denied'' None)] \<and>
   sent (handleMessage demo_ab 1 (Join_room ''zz'') ''m1'' 60) =
     sent demo_ab @ [(1, Error_ev ''Chat not found or access denied'' None)]"
proof -
  have h: "castObjectId (db demo_ab) ''zz'' = Some ''zz''" "messages (db demo_ab) ''zz'' = None"
    "map_of (chats (db demo_ab)) ''zz'' = None" "readyState (sockets demo_ab 1) = OPEN"
    by (simp_all add: demo_defs)
  from absent_resource_replies [where st = demo_ab and messageId = "''zz''" and k = "''zz''" and c = 1
              and chatId = "''zz''" and mid = "''m1''" and now = 60
              and p = "demo_payload\<lparr>p_chatId := ''zz''\<rparr>"] h
  show ?thesis by simp
qed


subsection \<open>Read receipts\<close>

text \<open>
  Claim C6. If \<open>U\<close> already appears in the \<^verbatim>\<open>readBy\<close> list of the stored message \<open>M\<close>,
  processing \<^verbatim>\<open>message_read\<close> for \<open>M\<close> by \<open>U\<close> changes nothing but the log of sent frames
  (so \<open>M\<close> and its \<^verbatim>\<open>readBy\<close> list are as before and nothing is saved), and it still
  sends \<^verbatim>\<open>message_read\<close> to every reachable member of the room named in the payload,
  nobody excluded.
\<close>

theorem message_read_again:
  assumes "castObjectId (db st) messageId = Some k"
    and "messages (db st) k = Some m"
    and "userId (sockets st c) = Some u"
    and "u \<in> rr_user ` set (readBy m)"
  shows "handleMessageRead st c messageId chatId now =
           st\<lparr>sent := sent st @
                  map (\<lambda>d. (d, Message_read messageId chatId (Some u) (username (sockets st c)) now))
                      (chat_recipients st chatId None)\<rparr> \<and>
         messages (db (handleMessageRead st c messageId chatId now)) k = Some m \<and>
         (\<forall>d. d \<in> set (chat_recipients st chatId None) \<longleftrightarrow>
            (\<exists>k' ch p. castObjectId (db st) chatId = Some k' \<and>
               map_of (chats (db st)) k' = Some ch \<and> p \<in> set (participants ch) \<and>
               users (db st) p \<noteq> None \<and> map_of (connectedUsers st) p = Some d \<and>
               readyState (sockets st d) = OPEN))"
proof -
  from assms(3,4) have "list_ex (\<lambda>receipt. Some (rr_user receipt) = userId (sockets st c)) (readBy m)"
    by (auto simp: list_ex_iff)
  with assms have "handleMessageRead st c messageId chatId now =
      post st (map (\<lambda>d. (d, Message_read messageId chatId (Some u) (username (sockets st c)) now))
                      (chat_recipients st chatId None))"
    by (simp add: handleMessageRead_def Message_findById_def Let_def broadcastToChat_post)
  with assms(2) show ?thesis
    by (simp add: post_def chat_recipients_iff)
qed


text \<open>Witness for C6: after \<open>a\<close> has marked \<open>m1\<close> read (\<open>demo_read\<close>), a second
  \<^verbatim>\<open>message_read\<close> leaves the single receipt and is broadcast to \<open>a\<close> and \<open>b\<close>.\<close>

theorem message_read_again_witness:
  "map_option readBy (messages (db demo_sent) ''m1'') = Some [] \<and>
   map_option readBy (messages (db demo_read) ''m1'') = Some [\<lparr>rr_user = ''a'', readAt = 50\<rparr>] \<and>
   map_option readBy (messages (db (handleMessageRead demo_read 1 ''m1'' ''r'' 60)) ''m1'') =
     Some [\<lparr>rr_user = ''a'', readAt = 50\<rparr>] \<and>
   sent (handleMessageRead demo_read 1 ''m1'' ''r'' 60) =
     sent demo_read @ [(1, Message_read ''m1'' ''r'' (Some ''a'') (Some ''ann'') 60),
                       (2, Message_read ''m1'' ''r'' (Some ''a'') (Some ''ann'') 60)]"
proof -
  have m0: "map_option readBy (messages (db demo_sent) ''m1'') = Some []"
    by (simp add: demo_defs)
  have m: "messages (db demo_read) ''m1'' =
        Some \<lparr>sender = ''b'', chat = ''r'', content = ''hi'', messageType = ''text'',
               fileUrl = None, fileName = None, fileSize = None, isEdited = False,
               readBy = [\<lparr>rr_user = ''a'', readAt = 50\<rparr>], createdAt = 40\<rparr>"
    by (simp add: demo_defs)
  have k: "castObjectId (db demo_read) ''m1'' = Some ''m1''"
    by (simp add: demo_defs)
  have u: "userId (sockets demo_read 1) = Some ''a''" and n: "username (sockets demo_read 1) = Some ''ann''"
    by (simp_all add: demo_defs)
  have r: "chat_recipients demo_read ''r'' None = [1, 2]"
    by (simp add: chat_recipients_def Chat_findById_def room_targets_def live_def demo_defs)
  have i: "''a'' \<in> rr_user ` set (readBy \<lparr>sender = ''b'', chat = ''r'', content = ''hi'', messageType = ''text'',
               fileUrl = None, fileName = None, fileSize = None, isEdited = False,
               readBy = [\<lparr>rr_user = ''a'', readAt = 50\<rparr>], createdAt = 40\<rparr>)"
    by simp
  from message_read_again [OF k m u i, of "''r''" 60] m0 m n r show ?thesis
    by simp
qed


subsection \<open>Sending a message\<close>






subsection \<open>Typing expiry\<close>









subsection \<open>Heartbeat\<close>

text \<open>
  Claim C8. Let \<open>c\<close> be an open client connection bound to \<open>u\<close> whose liveness flag is
  \<^verbatim>\<open>true\<close>, as line 54 sets it at connect time. The next heartbeat tick does not
  terminate it: it stays among the clients, is sent a ping, and only its flag changes,
  to \<^verbatim>\<open>false\<close>. In every later state in which the connection is still as that tick
  left it (no pong has set the flag back), the following tick terminates it: it is
  closed and leaves the clients, and its disconnect path has run, so the registry has no
  entry for \<open>u\<close>, no typing claim of \<open>u\<close> is left, \<open>u\<close> is stored offline with the time
  of the tick, and \<^verbatim>\<open>user_offline\<close> is among the frames the tick sends to each contact
  of \<open>u\<close> that is registered on an open connection, unless that connection, or
  another one bound to the same contact, is terminated by the same tick.
\<close>

theorem two_tick_liveness:
  assumes dist: "distinct (clients st)" and c: "c \<in> set (clients st)"
    and alive: "isAlive (sockets st c) = Some True"
    and op: "readyState (sockets st c) = OPEN"
    and bound: "listeners (sockets st c)" "userId (sockets st c) = Some u" "u \<noteq> []"
  shows "(c \<in> set (clients (heartbeat st t1)) \<and>
          sockets (heartbeat st t1) c = (sockets st c)\<lparr>isAlive := Some False\<rparr> \<and>
          c \<in> set (pinged (heartbeat st t1)) \<and> distinct (clients (heartbeat st t1))) \<and>
         (\<forall>s. distinct (clients s) \<and> c \<in> set (clients s) \<and>
              sockets s c = (sockets st c)\<lparr>isAlive := Some False\<rparr> \<longrightarrow>
              c \<notin> set (clients (heartbeat s t2)) \<and>
              readyState (sockets (heartbeat s t2) c) = CLOSED \<and>
              map_of (connectedUsers (heartbeat s t2)) u = None \<and>
              (\<forall>kt \<in> set (typingUsers (heartbeat s t2)). tu_userId (snd kt) \<noteq> Some u) \<and>
              (\<forall>usr. users (db (heartbeat s t2)) u = Some usr \<longrightarrow>
                     \<not> isOnline usr \<and> lastSeen usr = t2) \<and>
              (\<forall>p d. p \<in> set (contacts s u) \<and> map_of (connectedUsers s) p = Some d \<and>
                     readyState (sockets s d) = OPEN \<and>
                     \<not> (d \<in> set (clients s) \<and> reaped s d) \<and>
                     (\<forall>e \<in> set (clients s). reaped s e \<longrightarrow> userId (sockets s e) \<noteq> Some p) \<longrightarrow>
                     (d, User_offline (Some u) (username (sockets st c)) t2)
                       \<in> set (drop (length (sent s)) (sent (heartbeat s t2)))))"
proof -
  have one: "c \<in> set (clients (heartbeat st t1)) \<and>
          sockets (heartbeat st t1) c = (sockets st c)\<lparr>isAlive := Some False\<rparr> \<and>
          c \<in> set (pinged (heartbeat st t1)) \<and> distinct (clients (heartbeat st t1))"
    using dist c alive op by (rule first_tick)
  have two: "c \<notin> set (clients (heartbeat s t2)) \<and>
              readyState (sockets (heartbeat s t2) c) = CLOSED \<and>
              map_of (connectedUsers (heartbeat s t2)) u = None \<and>
              (\<forall>kt \<in> set (typingUsers (heartbeat s t2)). tu_userId (snd kt) \<noteq> Some u) \<and>
              (\<forall>usr. users (db (heartbeat s t2)) u = Some usr \<longrightarrow>
                     \<not> isOnline usr \<and> lastSeen usr = t2) \<and>
              (\<forall>p d. p \<in> set (contacts s u) \<and> map_of (connectedUsers s) p = Some d \<and>
                     readyState (sockets s d) = OPEN \<and>
                     \<not> (d \<in> set (clients s) \<and> reaped s d) \<and>
                     (\<forall>e \<in> set (clients s). reaped s e \<longrightarrow> userId (sockets s e) \<noteq> Some p) \<longrightarrow>
                     (d, User_offline (Some u) (username (sockets st c)) t2)
                       \<in> set (drop (length (sent s)) (sent (heartbeat s t2))))"
    if a: "distinct (clients s) \<and> c \<in> set (clients s) \<and>
           sockets s c = (sockets st c)\<lparr>isAlive := Some False\<rparr>" for s :: hub
  proof -
    from a have f: "isAlive (sockets s c) = Some False" "readyState (sockets s c) \<noteq> CLOSED"
      "listeners (sockets s c)" "userId (sockets s c) = Some u"
      using op bound by simp_all
    from a have n: "username (sockets s c) = username (sockets st c)"
      by simp
    from a have d: "distinct (clients s)" and m: "c \<in> set (clients s)"
      by simp_all
    from second_tick [OF d m f bound(3), of t2] show ?thesis
      unfolding n .
  qed
  from one two show ?thesis
    by blast
qed

text \<open>Witness for C8: in \<open>demo_ab\<close> both connections have a confirmed flag; after the
  first tick only \<open>b\<close> answers; the second tick terminates connection 1 of \<open>a\<close> and
  sends \<^verbatim>\<open>user_offline\<close> to \<open>b\<close>.\<close>

theorem two_tick_liveness_witness:
  "distinct (clients demo_ab) \<and> isAlive (sockets demo_ab 1) = Some True \<and>
   1 \<in> set (clients demo_tick) \<and> readyState (sockets demo_tick 1) = OPEN \<and>
   isAlive (sockets demo_pong 1) = Some False \<and> isAlive (sockets demo_pong 2) = Some True \<and>
   1 \<notin> set (clients (heartbeat demo_pong 60000)) \<and>
   readyState (sockets (heartbeat demo_pong 60000) 1) = CLOSED \<and>
   map_of (connectedUsers (heartbeat demo_pong 60000)) ''a'' = None \<and>
   (2, User_offline (Some ''a'') (Some ''ann'') 60000)
     \<in> set (drop (length (sent demo_pong)) (sent (heartbeat demo_pong 60000)))"
proof -
  have dist: "distinct (clients demo_ab)" and c: "1 \<in> set (clients demo_ab)"
    and alive: "isAlive (sockets demo_ab 1) = Some True"
    and op: "readyState (sockets demo_ab 1) = OPEN"
    and bound: "listeners (sockets demo_ab 1)" "userId (sockets demo_ab 1) = Some ''a''"
      "''a'' \<noteq> []"
    and name: "username (sockets demo_ab 1) = Some ''ann''"
    by (simp_all add: demo_defs)
  note t = two_tick_liveness [OF dist c alive op bound, of 30000 60000, folded demo_tick_def]
  have s: "distinct (clients demo_pong) \<and> 1 \<in> set (clients demo_pong) \<and>
           sockets demo_pong 1 = (sockets demo_ab 1)\<lparr>isAlive := Some False\<rparr>"
    by (simp add: demo_pong_eq demo_defs)
  have b: "''b'' \<in> set (contacts demo_pong ''a'') \<and>
           map_of (connectedUsers demo_pong) ''b'' = Some 2 \<and>
           readyState (sockets demo_pong 2) = OPEN \<and>
           \<not> (2 \<in> set (clients demo_pong) \<and> reaped demo_pong 2) \<and>
           (\<forall>e \<in> set (clients demo_pong). reaped demo_pong e \<longrightarrow>
                userId (sockets demo_pong e) \<noteq> Some ''b'')"
    by (simp add: demo_pong_eq contacts_def reaped_def demo_defs)
  have p: "isAlive (sockets demo_pong 1) = Some False" "isAlive (sockets demo_pong 2) = Some True"
    by (simp_all add: demo_pong_eq demo_defs)
  from t [THEN conjunct1] t [THEN conjunct2, rule_format, OF s]
       t [THEN conjunct2, rule_format, OF s, THEN conjunct2, THEN conjunct2, THEN conjunct2,
          THEN conjunct2, THEN conjunct2, rule_format, OF b]
       dist alive op name p
  show ?thesis
    by simp
qed


end
